theory Spec2Isabelle
  imports Main "HOL-Library.Sublist"
begin

section \<open>Strings of the host language\<close>

text \<open>
  Strings are modelled as \<^typ>\<open>string\<close>; a character stands for one code unit below 256.
  The string built-ins of the host language that \<^verbatim>\<open>src/index.ts\<close> calls are written out here:
  \<^verbatim>\<open>split\<close>, \<^verbatim>\<open>pop\<close>, \<^verbatim>\<open>toLowerCase\<close>, \<^verbatim>\<open>includes\<close>.
\<close>

text \<open>\<^verbatim>\<open>s.split(sep)\<close> for a one-character separator: never the empty list.\<close>

fun js_split :: "char \<Rightarrow> string \<Rightarrow> string list" where
  "js_split sep [] = [[]]"
| "js_split sep (c # cs) =
     (if c = sep then [] # js_split sep cs
      else (case js_split sep cs of
              [] \<Rightarrow> [[c]]
            | seg # segs \<Rightarrow> (c # seg) # segs))"

text \<open>\<^verbatim>\<open>xs.pop()\<close>: the last element, \<^verbatim>\<open>undefined\<close> on the empty array.\<close>

definition pop :: "'a list \<Rightarrow> 'a option" where
  "pop xs = (if xs = [] then None else Some (last xs))"

text \<open>
  \<^verbatim>\<open>toLowerCase\<close> on the code units modelled: the 26 capital letters and the capital
  letters of the range \<^verbatim>\<open>0xC0\<close> to \<^verbatim>\<open>0xDE\<close> change, every other code unit is kept.
\<close>

definition upper_chars :: "char list" where
  "upper_chars =
     ''ABCDEFGHIJKLMNOPQRSTUVWXYZ'' @
     [CHR 0xC0, CHR 0xC1, CHR 0xC2, CHR 0xC3, CHR 0xC4, CHR 0xC5, CHR 0xC6, CHR 0xC7,
      CHR 0xC8, CHR 0xC9, CHR 0xCA, CHR 0xCB, CHR 0xCC, CHR 0xCD, CHR 0xCE, CHR 0xCF,
      CHR 0xD0, CHR 0xD1, CHR 0xD2, CHR 0xD3, CHR 0xD4, CHR 0xD5, CHR 0xD6, CHR 0xD8,
      CHR 0xD9, CHR 0xDA, CHR 0xDB, CHR 0xDC, CHR 0xDD, CHR 0xDE]"

definition lower_chars :: "char list" where
  "lower_chars =
     ''abcdefghijklmnopqrstuvwxyz'' @
     [CHR 0xE0, CHR 0xE1, CHR 0xE2, CHR 0xE3, CHR 0xE4, CHR 0xE5, CHR 0xE6, CHR 0xE7,
      CHR 0xE8, CHR 0xE9, CHR 0xEA, CHR 0xEB, CHR 0xEC, CHR 0xED, CHR 0xEE, CHR 0xEF,
      CHR 0xF0, CHR 0xF1, CHR 0xF2, CHR 0xF3, CHR 0xF4, CHR 0xF5, CHR 0xF6, CHR 0xF8,
      CHR 0xF9, CHR 0xFA, CHR 0xFB, CHR 0xFC, CHR 0xFD, CHR 0xFE]"

definition lower_char :: "char \<Rightarrow> char" where
  "lower_char c = (case map_of (zip upper_chars lower_chars) c of None \<Rightarrow> c | Some l \<Rightarrow> l)"

definition toLowerCase :: "string \<Rightarrow> string" where
  "toLowerCase s = map lower_char s"

definition js_includes :: "'a list \<Rightarrow> 'a \<Rightarrow> bool" where
  "js_includes xs x = (x \<in> set xs)"

section \<open>Image classifier: \<^verbatim>\<open>detectImageMimeType\<close>\<close>

definition supported :: "string list" where
  "supported = [''jpg'', ''jpeg'', ''png'', ''gif'', ''webp'']"

text \<open>
  \<^verbatim>\<open>const ext = absolutePath.split(".").pop()?.toLowerCase();\<close>
  \<^verbatim>\<open>if (ext && supported.includes(ext)) return `image/${ext === "jpg" ? "jpeg" : ext}`;\<close>
  \<^verbatim>\<open>return null;\<close>
  The result \<^verbatim>\<open>null\<close> is \<^term>\<open>None\<close>.
\<close>

definition detectImageMimeType :: "string \<Rightarrow> string option" where
  "detectImageMimeType absolutePath =
     (case map_option toLowerCase (pop (js_split CHR ''.'' absolutePath)) of
        None \<Rightarrow> None
      | Some ext \<Rightarrow>
          if ext \<noteq> [] \<and> js_includes supported ext
          then Some (''image/'' @ (if ext = ''jpg'' then ''jpeg'' else ext))
          else None)"

text \<open>The classification of the specification: \<^verbatim>\<open>Image(mimeType) | NotImage\<close>.\<close>

datatype ClassificationResult = Image string | NotImage

definition classify :: "string \<Rightarrow> ClassificationResult" where
  "classify path = (case detectImageMimeType path of None \<Rightarrow> NotImage | Some m \<Rightarrow> Image m)"

section \<open>Values of the structured output\<close>

text \<open>
  The value that \<^verbatim>\<open>JSON.parse\<close> returns. A number is kept as the text that string
  conversion gives for it, the only way the code can observe a number besides its truth
  value (\<^verbatim>\<open>0\<close> and \<^verbatim>\<open>-0\<close> both convert to \<^verbatim>\<open>"0"\<close>). An object is the list of its
  own properties, each key once. \<^verbatim>\<open>undefined\<close> is \<^term>\<open>None\<close> of \<^typ>\<open>'a option\<close>.
\<close>

datatype json =
    JNull
  | JBool bool
  | JNum string
  | JStr string
  | JArr "json list"
  | JObj "(string \<times> json) list"

datatype js_error = TypeError | SyntaxError

text \<open>
  Reading a property \<^verbatim>\<open>v.k\<close>, for the names the code reads (\<^verbatim>\<open>messages\<close>, \<^verbatim>\<open>role\<close>,
  \<^verbatim>\<open>content\<close>, \<^verbatim>\<open>type\<close>, \<^verbatim>\<open>text\<close>): a TypeError on \<^verbatim>\<open>null\<close>, the own property of an
  object, \<^verbatim>\<open>undefined\<close> on every other value.
\<close>

fun get_prop :: "json \<Rightarrow> string \<Rightarrow> js_error + json option" where
  "get_prop JNull k = Inl TypeError"
| "get_prop (JObj kvs) k = Inr (map_of kvs k)"
| "get_prop v k = Inr None"

text \<open>Truth value of a value in a condition.\<close>

fun truthy :: "json option \<Rightarrow> bool" where
  "truthy None = False"
| "truthy (Some JNull) = False"
| "truthy (Some (JBool b)) = b"
| "truthy (Some (JNum n)) = (n \<noteq> ''0'')"
| "truthy (Some (JStr s)) = (s \<noteq> [])"
| "truthy (Some (JArr xs)) = True"
| "truthy (Some (JObj kvs)) = True"

text \<open>\<^verbatim>\<open>xs.join(sep)\<close> on strings already converted.\<close>

fun join :: "string \<Rightarrow> string list \<Rightarrow> string" where
  "join sep [] = []"
| "join sep [x] = x"
| "join sep (x # y # ys) = x @ sep @ join sep (y # ys)"

text \<open>Collecting results that may raise: the first error wins.\<close>

fun sequence :: "('e + 'a) list \<Rightarrow> 'e + 'a list" where
  "sequence [] = Inr []"
| "sequence (Inl e # rs) = Inl e"
| "sequence (Inr x # rs) = (case sequence rs of Inl e \<Rightarrow> Inl e | Inr xs \<Rightarrow> Inr (x # xs))"

text \<open>
  String conversion as \<^verbatim>\<open>join\<close> applies it to an element: \<^verbatim>\<open>undefined\<close> and \<^verbatim>\<open>null\<close>
  give the empty string, an array is joined with commas, an object gives
  \<^verbatim>\<open>[object Object]\<close> unless it has an own property \<^verbatim>\<open>toString\<close> (never callable in
  parsed data), in which case the conversion raises a TypeError.
\<close>

fun to_string :: "json \<Rightarrow> js_error + string" where
  "to_string JNull = Inr []"
| "to_string (JBool b) = Inr (if b then ''true'' else ''false'')"
| "to_string (JNum n) = Inr n"
| "to_string (JStr s) = Inr s"
| "to_string (JArr xs) =
     (case sequence (map to_string xs) of
        Inl e \<Rightarrow> Inl e
      | Inr ss \<Rightarrow> Inr (join '','' ss))"
| "to_string (JObj kvs) =
     (if map_of kvs ''toString'' \<noteq> None then Inl TypeError else Inr ''[object Object]'')"

definition element_string :: "json option \<Rightarrow> js_error + string" where
  "element_string v = (case v of None \<Rightarrow> Inr [] | Some j \<Rightarrow> to_string j)"

text \<open>\<^verbatim>\<open>xs.findLast(p)\<close>: the elements are tried from the last one; a raising test ends the search.\<close>

fun find_first :: "('a \<Rightarrow> js_error + bool) \<Rightarrow> 'a list \<Rightarrow> js_error + 'a option" where
  "find_first p [] = Inr None"
| "find_first p (x # xs) =
     (case p x of
        Inl e \<Rightarrow> Inl e
      | Inr b \<Rightarrow> if b then Inr (Some x) else find_first p xs)"

definition findLast :: "('a \<Rightarrow> js_error + bool) \<Rightarrow> 'a list \<Rightarrow> js_error + 'a option" where
  "findLast p xs = find_first p (rev xs)"

text \<open>\<^verbatim>\<open>xs.filter(p)\<close> with a test that may raise.\<close>

fun filter_js :: "('a \<Rightarrow> js_error + bool) \<Rightarrow> 'a list \<Rightarrow> js_error + 'a list" where
  "filter_js p [] = Inr []"
| "filter_js p (x # xs) =
     (case p x of
        Inl e \<Rightarrow> Inl e
      | Inr b \<Rightarrow>
          (case filter_js p xs of
             Inl e \<Rightarrow> Inl e
           | Inr ys \<Rightarrow> Inr (if b then x # ys else ys)))"

section \<open>Response normalizer\<close>

text \<open>\<^verbatim>\<open>(m: any) => m.role === "assistant"\<close> and \<^verbatim>\<open>(c: any) => c.type === "text"\<close>.\<close>

definition is_assistant :: "json \<Rightarrow> js_error + bool" where
  "is_assistant m =
     (case get_prop m ''role'' of Inl e \<Rightarrow> Inl e | Inr r \<Rightarrow> Inr (r = Some (JStr ''assistant'')))"

definition is_text :: "json \<Rightarrow> js_error + bool" where
  "is_text c =
     (case get_prop c ''type'' of Inl e \<Rightarrow> Inl e | Inr t \<Rightarrow> Inr (t = Some (JStr ''text'')))"

text \<open>
  \<^verbatim>\<open>assistantMsg.content.filter(...).map((c: any) => c.text).join("\n")\<close>:
  calling \<^verbatim>\<open>filter\<close> on anything but an array is a TypeError.
\<close>

definition content_text :: "json \<Rightarrow> js_error + string" where
  "content_text content =
     (case content of
        JArr cs \<Rightarrow>
          (case filter_js is_text cs of
             Inl e \<Rightarrow> Inl e
           | Inr ts \<Rightarrow>
               (case sequence (map (\<lambda>c. get_prop c ''text'') ts) of
                  Inl e \<Rightarrow> Inl e
                | Inr vs \<Rightarrow>
                    (case sequence (map element_string vs) of
                       Inl e \<Rightarrow> Inl e
                     | Inr ss \<Rightarrow> Inr (join [CHR 0x0A] ss))))
      | _ \<Rightarrow> Inl TypeError)"

text \<open>
  The body of the inner \<^verbatim>\<open>try\<close> after \<^verbatim>\<open>JSON.parse\<close> (lines 155 to 168), for the parsed
  value \<open>json\<close> and the text \<open>raw\<close> that was parsed.
\<close>

definition summaryText :: "json \<Rightarrow> string \<Rightarrow> js_error + string" where
  "summaryText json raw =
     (case get_prop json ''messages'' of
        Inl e \<Rightarrow> Inl e
      | Inr messages \<Rightarrow>
          (case messages of
             Some (JArr ms) \<Rightarrow>
               (case findLast is_assistant ms of
                  Inl e \<Rightarrow> Inl e
                | Inr None \<Rightarrow> Inr raw
                | Inr (Some assistantMsg) \<Rightarrow>
                    (case get_prop assistantMsg ''content'' of
                       Inl e \<Rightarrow> Inl e
                     | Inr None \<Rightarrow> Inr raw
                     | Inr (Some content) \<Rightarrow>
                         if truthy (Some content) then content_text content else Inr raw))
           | _ \<Rightarrow> Inr raw))"

text \<open>
  The whole \<^verbatim>\<open>try { ... } catch { summaryText = result.text }\<close>. The parser \<open>parse\<close> stands
  for \<^verbatim>\<open>JSON.parse\<close>: \<^term>\<open>None\<close> when it raises a SyntaxError.
\<close>

definition normalize_summary :: "(string \<Rightarrow> json option) \<Rightarrow> string \<Rightarrow> string" where
  "normalize_summary parse raw =
     (case parse raw of
        None \<Rightarrow> raw
      | Some json \<Rightarrow> (case summaryText json raw of Inl e \<Rightarrow> raw | Inr s \<Rightarrow> s))"

section \<open>Delegation invoker\<close>

definition SUMMARY_PROMPT :: string where
  "SUMMARY_PROMPT =
     ''Please analyze this image comprehensively. Extract ALL information from the image including:\<newline>'' @
     ''\<newline>'' @
     ''1. **Overall Description**: What type of content is this? (screenshot, diagram, document, photograph, UI, code, etc.)\<newline>'' @
     ''2. **Text Content**: ALL visible text in the image, preserving structure and formatting. Include labels, buttons, error messages, file paths, code snippets, etc. Be exhaustive.\<newline>'' @
     ''3. **Visual Elements**: Colors, layout, components, icons, graphical elements\<newline>'' @
     ''4. **Technical Details**: For code, UI, diagrams - include exact values, class names, IDs, parameters, configurations\<newline>'' @
     ''5. **Contextual Information**: Window titles, terminal prompts, file names, timestamps, status indicators\<newline>'' @
     ''6. **Structure**: How elements are organized, relationships between components\<newline>'' @
     ''7. **Actionable Information**: Any visible commands, settings, configurations, or parameters that could be useful\<newline>'' @
     ''\<newline>'' @
     ''Format your response clearly with sections and bullet points. Be extremely thorough - the user needs to understand everything visible in this image to perform their task.''"

text \<open>\<^verbatim>\<open>s.trim()\<close>: white space and line terminators among the code units modelled.\<close>

definition is_space :: "char \<Rightarrow> bool" where
  "is_space c = (c \<in> set [CHR 0x09, CHR 0x0A, CHR 0x0B, CHR 0x0C, CHR 0x0D, CHR 0x20, CHR 0xA0])"

definition trim :: "string \<Rightarrow> string" where
  "trim s = rev (dropWhile is_space (rev (dropWhile is_space s)))"

text \<open>Decimal text of a number, as a template literal renders an exit code.\<close>

fun show_nat :: "nat \<Rightarrow> string" where
  "show_nat n =
     (if n < 10 then [''0123456789'' ! n]
      else show_nat (n div 10) @ [''0123456789'' ! (n mod 10)])"

declare show_nat.simps [simp del]

definition show_int :: "int \<Rightarrow> string" where
  "show_int i = (if i < 0 then ''-'' @ show_nat (nat (- i)) else show_nat (nat i))"

text \<open>The exit code of the \<^verbatim>\<open>close\<close> event is a number or \<^verbatim>\<open>null\<close>.\<close>

definition show_code :: "int option \<Rightarrow> string" where
  "show_code code = (case code of None \<Rightarrow> ''null'' | Some i \<Rightarrow> show_int i)"

text \<open>
  The outcome of one delegation. In the code each failure is an \<^verbatim>\<open>Error\<close> with a message;
  the constructor records which \<^verbatim>\<open>reject\<close> or \<^verbatim>\<open>throw\<close> made it:
  \<open>Cancelled\<close> is \<^verbatim>\<open>new Error("Operation aborted")\<close>.
\<close>

datatype DelegationOutcome = Success string | ProcessError string | Cancelled

fun error_message :: "DelegationOutcome \<Rightarrow> string" where
  "error_message (ProcessError m) = m"
| "error_message Cancelled = ''Operation aborted''"
| "error_message (Success t) = []"

text \<open>
  What the event loop delivers to the listeners of one invocation, in order:
  data on the two pipes, the \<^verbatim>\<open>error\<close> and \<^verbatim>\<open>close\<close> events of the child, and the
  \<^verbatim>\<open>abort\<close> request of the caller.
\<close>

datatype event =
    StdoutData string
  | StderrData string
  | ChildError string
  | Close "int option"
  | Abort

text \<open>
  The state of the promise of lines 91 to 143 together with the continuation of
  \<^verbatim>\<open>await\<close> (lines 145 to 147). \<open>settled\<close> is \<^term>\<open>None\<close> while the promise is pending.
  \<open>signal\<close> is \<^term>\<open>None\<close> when the caller passed no signal and \<^verbatim>\<open>signal.aborted\<close>
  otherwise, \<open>listening\<close> says that \<^verbatim>\<open>onAbort\<close> is attached to the signal, \<open>kills\<close>
  counts the calls of \<^verbatim>\<open>child.kill()\<close>.
\<close>

record invocation =
  stdout :: string
  stderr :: string
  settled :: "DelegationOutcome option"
  signal :: "bool option"
  listening :: bool
  kills :: nat

text \<open>\<^verbatim>\<open>reject(err)\<close>: only the first settlement of a promise counts.\<close>

definition reject :: "DelegationOutcome \<Rightarrow> invocation \<Rightarrow> invocation" where
  "reject err s = (if settled s = None then s\<lparr>settled := Some err\<rparr> else s)"

text \<open>
  \<^verbatim>\<open>resolveResult({ text })\<close> followed by the continuation, which runs before the next
  event is delivered: \<^verbatim>\<open>if (signal?.aborted) throw new Error("Operation aborted")\<close>.
\<close>

definition resolveResult :: "string \<Rightarrow> invocation \<Rightarrow> invocation" where
  "resolveResult t s =
     (if settled s = None
      then s\<lparr>settled := Some (if signal s = Some True then Cancelled else Success t)\<rparr>
      else s)"

text \<open>
  The state after \<^verbatim>\<open>spawn\<close> and the registration of the listeners. The signal is
  \<^term>\<open>Some True\<close> when it is already aborted at that moment: the listener is attached
  all the same.
\<close>

definition spawned :: "bool option \<Rightarrow> invocation" where
  "spawned sig =
     \<lparr>stdout = [], stderr = [], settled = None,
      signal = sig, listening = (sig \<noteq> None), kills = 0\<rparr>"

text \<open>
  One event. An abort signal fires its event once, when it goes from not aborted to
  aborted; the listener \<^verbatim>\<open>onAbort\<close> is registered with \<^verbatim>\<open>once\<close> and is removed by the
  second \<^verbatim>\<open>close\<close> listener.
\<close>

fun deliver :: "event \<Rightarrow> invocation \<Rightarrow> invocation" where
  "deliver (StdoutData d) s = s\<lparr>stdout := stdout s @ d\<rparr>"
| "deliver (StderrData d) s = s\<lparr>stderr := stderr s @ d\<rparr>"
| "deliver (ChildError m) s = reject (ProcessError m) s"
| "deliver (Close code) s =
     (if code \<noteq> Some 0
      then reject (ProcessError (''pi subprocess failed ('' @ show_code code @ ''): '' @ stderr s)) s
      else resolveResult (trim (stdout s)) s)
     \<lparr>listening := False\<rparr>"
| "deliver Abort s =
     (if signal s \<noteq> Some False then s
      else if listening s
      then reject Cancelled (s\<lparr>signal := Some True, listening := False, kills := kills s + 1\<rparr>)
      else s\<lparr>signal := Some True\<rparr>)"

fun run :: "event list \<Rightarrow> invocation \<Rightarrow> invocation" where
  "run [] s = s"
| "run (e # es) s = run es (deliver e s)"

text \<open>
  The invoker: the outcome of the invocation, \<^term>\<open>None\<close> when no event settles it (the
  caller waits for ever), and the number of times the child was killed.
\<close>

definition invoke :: "bool option \<Rightarrow> event list \<Rightarrow> DelegationOutcome option \<times> nat" where
  "invoke sig events = (let s = run events (spawned sig) in (settled s, kills s))"

section \<open>Read router: the overridden \<^verbatim>\<open>execute\<close> of the read tool\<close>

record read_params =
  path :: string

text \<open>\<open>model\<close> is \<^verbatim>\<open>ctx.model?.id\<close>: \<^term>\<open>None\<close> when no model is set.\<close>

record ExecutionContext =
  cwd :: string
  model :: "string option"
  hasUI :: bool

record TextContent =
  tc_type :: string
  tc_text :: string

record ReadToolDetails =
  summaryModel :: string

record ReadResult =
  content :: "TextContent list"
  details :: ReadToolDetails

record ToolError =
  message :: string
  isToolError :: bool

text \<open>
  What \<^verbatim>\<open>execute\<close> gives back: the result of the standard read tool as it is (of any
  type \<open>'r\<close>), the result built from the analysis, or the error thrown at line 191.
\<close>

datatype 'r tool_result = Direct 'r | Analyzed ReadResult | Thrown ToolError

text \<open>
  One run of \<^verbatim>\<open>execute\<close>: the calls it makes on its collaborators and what it returns
  (\<^term>\<open>None\<close> when it never returns). \<open>direct_reads\<close> are the calls of
  \<^verbatim>\<open>localRead.execute\<close>, \<open>updates\<close> the contents passed to \<^verbatim>\<open>onUpdate\<close>, \<open>spawns\<close> the
  calls of \<^verbatim>\<open>spawn\<close> with program and arguments, \<open>child_kills\<close> the calls of
  \<^verbatim>\<open>child.kill()\<close>.
\<close>

record 'r execution =
  direct_reads :: "read_params list"
  updates :: "TextContent list list"
  spawns :: "(string \<times> string list) list"
  child_kills :: nat
  returned :: "'r tool_result option"

definition analysis_args :: "string \<Rightarrow> string list" where
  "analysis_args absolutePath =
     [''@'' @ absolutePath, ''--provider'', ''zai'', ''--model'', ''glm-4.6v'',
      ''-p'', SUMMARY_PROMPT, ''--json'']"

definition standard_read :: "(read_params \<Rightarrow> 'r) \<Rightarrow> read_params \<Rightarrow> 'r execution" where
  "standard_read localRead params =
     \<lparr>direct_reads = [params], updates = [], spawns = [], child_kills = 0,
      returned = Some (Direct (localRead params))\<rparr>"

definition readResult :: "string \<Rightarrow> ReadResult" where
  "readResult summary =
     \<lparr>content = [\<lparr>tc_type = ''text'',
                   tc_text = ''[Image analyzed with glm-4.6v]'' @ [CHR 0x0A, CHR 0x0A] @ summary\<rparr>],
      details = \<lparr>summaryModel = ''glm-4.6v''\<rparr>\<rparr>"

definition analysis_failed :: "DelegationOutcome \<Rightarrow> ToolError" where
  "analysis_failed err =
     \<lparr>message = ''Image analysis failed with glm-4.6v: '' @ error_message err @
        ''. The image may not be supported (e.g., animated GIFs) or there was a connection issue.'',
      isToolError = True\<rparr>"

text \<open>
  \<^verbatim>\<open>execute(toolCallId, params, signal, onUpdate, ctx)\<close>, lines 65 to 193. The parameters
  \<open>resolve\<close> (\<^verbatim>\<open>path.resolve\<close>), \<open>localRead\<close> (the standard read tool) and \<open>parse\<close>
  (\<^verbatim>\<open>JSON.parse\<close>) are the collaborators; \<open>events\<close> is what the child process and the
  caller do while the analysis runs.
\<close>

definition execute ::
  "(string \<Rightarrow> string \<Rightarrow> string) \<Rightarrow> (read_params \<Rightarrow> 'r) \<Rightarrow> (string \<Rightarrow> json option) \<Rightarrow>
   read_params \<Rightarrow> bool option \<Rightarrow> ExecutionContext \<Rightarrow> event list \<Rightarrow> 'r execution" where
  "execute resolve localRead parse params sig ctx events =
     (let absolutePath = resolve (cwd ctx) (path params);
          isGlm4_7 = (model ctx = Some ''glm-4.7'' \<or> model ctx = Some ''glm-4.7-long'')
      in if \<not> isGlm4_7 then standard_read localRead params
         else
           (case detectImageMimeType absolutePath of
              None \<Rightarrow> standard_read localRead params
            | Some mimeType \<Rightarrow>
                (let (outcome, k) = invoke sig events;
                     analyzing = [\<lparr>tc_type = ''text'', tc_text = ''[Analyzing image with glm-4.6v...]''\<rparr>];
                     run = \<lparr>direct_reads = [], updates = [analyzing],
                            spawns = [(''pi'', analysis_args absolutePath)], child_kills = k,
                            returned = None\<rparr>
                 in case outcome of
                      None \<Rightarrow> run
                    | Some (Success t) \<Rightarrow>
                        (let r = readResult (normalize_summary parse t)
                         in run\<lparr>updates := [analyzing, content r], returned := Some (Analyzed r)\<rparr>)
                    | Some err \<Rightarrow> run\<lparr>returned := Some (Thrown (analysis_failed err))\<rparr>)))"

section \<open>The command \<^verbatim>\<open>analyze-image\<close>\<close>

text \<open>
  The state of the dialog of lines 221 to 299. \<open>finished\<close> is the first value passed to
  \<^verbatim>\<open>done\<close> (\<^term>\<open>Some None\<close> for \<^verbatim>\<open>null\<close>), \<open>notified\<close> the calls of \<^verbatim>\<open>ctx.ui.notify\<close> with
  message and level, \<open>shown\<close> the calls of \<^verbatim>\<open>ctx.ui.editor\<close> with title and text.
\<close>

record dialog =
  d_stdout :: string
  d_stderr :: string
  d_aborted :: bool
  d_kills :: nat
  finished :: "string option option"
  notified :: "(string \<times> string) list"
  shown :: "(string \<times> string) list"

definition notify :: "string \<Rightarrow> string \<Rightarrow> dialog \<Rightarrow> dialog" where
  "notify msg level s = s\<lparr>notified := notified s @ [(msg, level)]\<rparr>"

text \<open>
  \<^verbatim>\<open>done(result)\<close>: the first call ends the dialog, and the handler goes on at line 301,
  with \<^verbatim>\<open>Cancelled\<close> for \<^verbatim>\<open>null\<close> and the editor otherwise.
\<close>

definition done_with :: "string option \<Rightarrow> dialog \<Rightarrow> dialog" where
  "done_with result s =
     (if finished s \<noteq> None then s
      else (case result of
              None \<Rightarrow> notify ''Cancelled'' ''info'' (s\<lparr>finished := Some None\<rparr>)
            | Some t \<Rightarrow> s\<lparr>finished := Some (Some t), shown := shown s @ [(''Image Analysis'', t)]\<rparr>))"

text \<open>
  One event in the dialog. \<open>Abort\<close> is the abort of the loader: \<^verbatim>\<open>loader.onAbort\<close> calls
  \<^verbatim>\<open>done(null)\<close> and the listener on \<^verbatim>\<open>loader.signal\<close> kills the child. The summary is
  computed as in \<^verbatim>\<open>execute\<close>, from the untrimmed output.
\<close>

fun dialog_deliver :: "(string \<Rightarrow> json option) \<Rightarrow> event \<Rightarrow> dialog \<Rightarrow> dialog" where
  "dialog_deliver parse (StdoutData d) s = s\<lparr>d_stdout := d_stdout s @ d\<rparr>"
| "dialog_deliver parse (StderrData d) s = s\<lparr>d_stderr := d_stderr s @ d\<rparr>"
| "dialog_deliver parse (ChildError m) s =
     done_with None (notify (''Analysis failed: '' @ m) ''error'' s)"
| "dialog_deliver parse (Close code) s =
     (if code \<noteq> Some 0
      then done_with None (notify (''Analysis failed: '' @ d_stderr s) ''error'' s)
      else done_with (Some (normalize_summary parse (d_stdout s))) s)"
| "dialog_deliver parse Abort s =
     (if d_aborted s then s
      else done_with None (s\<lparr>d_aborted := True, d_kills := d_kills s + 1\<rparr>))"

fun dialog_run :: "(string \<Rightarrow> json option) \<Rightarrow> event list \<Rightarrow> dialog \<Rightarrow> dialog" where
  "dialog_run parse [] s = s"
| "dialog_run parse (e # es) s = dialog_run parse es (dialog_deliver parse e s)"

text \<open>
  The dialog after \<^verbatim>\<open>spawn\<close> and the registration of the listeners:
  \<^verbatim>\<open>if (loader.signal.aborted) child.kill()\<close> (line 290).
\<close>

definition opened :: "bool \<Rightarrow> dialog" where
  "opened loader_aborted =
     \<lparr>d_stdout = [], d_stderr = [], d_aborted = loader_aborted,
      d_kills = (if loader_aborted then 1 else 0),
      finished = None, notified = [], shown = []\<rparr>"

text \<open>
  One run of the handler: its notifications, the processes it spawns, the kills, and the
  texts it shows in the editor.
\<close>

record command_run =
  notifications :: "(string \<times> string) list"
  c_spawns :: "(string \<times> string list) list"
  c_kills :: nat
  displayed :: "(string \<times> string) list"

definition only_notify :: "string \<Rightarrow> string \<Rightarrow> command_run" where
  "only_notify msg level =
     \<lparr>notifications = [(msg, level)], c_spawns = [], c_kills = 0, displayed = []\<rparr>"

text \<open>
  \<^verbatim>\<open>handler(args, ctx)\<close>, lines 199 to 308. \<open>loader_aborted\<close> is \<^verbatim>\<open>loader.signal.aborted\<close>
  when the listeners are registered (line 290).
\<close>

definition handler ::
  "(string \<Rightarrow> string \<Rightarrow> string) \<Rightarrow> (string \<Rightarrow> json option) \<Rightarrow>
   string \<Rightarrow> ExecutionContext \<Rightarrow> bool \<Rightarrow> event list \<Rightarrow> command_run" where
  "handler resolve parse args ctx loader_aborted events =
     (if \<not> hasUI ctx then only_notify ''analyze-image requires interactive mode'' ''error''
      else
        (let imagePath = trim args
         in if imagePath = [] then only_notify ''Usage: /analyze-image <path-to-image>'' ''error''
            else
              (let absolutePath = resolve (cwd ctx) imagePath
               in case detectImageMimeType absolutePath of
                    None \<Rightarrow> only_notify ''Not a supported image file'' ''error''
                  | Some mimeType \<Rightarrow>
                      (let s = dialog_run parse events (opened loader_aborted)
                       in \<lparr>notifications = notified s,
                           c_spawns = [(''pi'', analysis_args absolutePath)],
                           c_kills = d_kills s,
                           displayed = shown s\<rparr>))))"

section \<open>The algorithms as the specification words them\<close>

text \<open>
  The file name of a path is its last component. The file extension is what follows the
  last dot of the file name, without the dot, as \<^verbatim>\<open>path.extname\<close> of the platform gives
  it: a file name without a dot has none, and neither has a file name whose only dot is
  its first character (a hidden file such as \<^verbatim>\<open>.png\<close>).
\<close>

definition file_name :: "string \<Rightarrow> string" where
  "file_name p = rev (takeWhile (\<lambda>c. c \<noteq> CHR ''/'') (rev p))"

definition file_extension :: "string \<Rightarrow> string option" where
  "file_extension p =
     (let n = file_name p;
          e = rev (takeWhile (\<lambda>c. c \<noteq> CHR ''.'') (rev n))
      in if CHR ''.'' \<in> set n \<and> n \<noteq> CHR ''.'' # e then Some e else None)"

text \<open>
  Section 4.1: the closed set of extensions, compared without regard to case; \<^verbatim>\<open>jpg\<close>
  gives \<^verbatim>\<open>image/jpeg\<close>, the others \<^verbatim>\<open>image/<ext>\<close>; any other extension, or none,
  gives \<open>NotImage\<close>.
\<close>

definition classify_spec :: "string \<Rightarrow> ClassificationResult" where
  "classify_spec p =
     (case file_extension p of
        None \<Rightarrow> NotImage
      | Some e \<Rightarrow>
          (let x = toLowerCase e
           in if x \<in> {''jpg'', ''jpeg'', ''png'', ''gif'', ''webp''}
              then Image (''image/'' @ (if x = ''jpg'' then ''jpeg'' else x))
              else NotImage))"

text \<open>A field of a structured record; absent on every value that is not a record.\<close>

definition field :: "string \<Rightarrow> json \<Rightarrow> json option" where
  "field k v = (case v of JObj kvs \<Rightarrow> map_of kvs k | _ \<Rightarrow> None)"

definition last_assistant :: "json list \<Rightarrow> json option" where
  "last_assistant ms =
     (case filter (\<lambda>m. field ''role'' m = Some (JStr ''assistant'')) ms of
        [] \<Rightarrow> None
      | a # as \<Rightarrow> Some (last (a # as)))"

definition text_entries :: "json list \<Rightarrow> json list" where
  "text_entries cs = filter (\<lambda>c. field ''type'' c = Some (JStr ''text'')) cs"

text \<open>The text of an entry, as a string.\<close>

definition entry_text :: "json \<Rightarrow> string" where
  "entry_text c = (case element_string (field ''text'' c) of Inl e \<Rightarrow> [] | Inr t \<Rightarrow> t)"

text \<open>
  Section 4.4: the last entry of \<^verbatim>\<open>messages\<close> whose role is \<^verbatim>\<open>assistant\<close>; if it has a
  content sequence, its entries of kind \<^verbatim>\<open>text\<close>, in order, joined by newlines; the raw
  text in every other case.
\<close>

definition normalize_spec :: "(string \<Rightarrow> json option) \<Rightarrow> string \<Rightarrow> string" where
  "normalize_spec parse raw =
     (case parse raw of
        None \<Rightarrow> raw
      | Some j \<Rightarrow>
          (case field ''messages'' j of
             Some (JArr ms) \<Rightarrow>
               (case last_assistant ms of
                  None \<Rightarrow> raw
                | Some a \<Rightarrow>
                    (case field ''content'' a of
                       Some (JArr cs) \<Rightarrow> join [CHR 0x0A] (map entry_text (text_entries cs))
                     | _ \<Rightarrow> raw))
           | _ \<Rightarrow> raw))"

text \<open>The text that the data events of a list of events add to each pipe.\<close>

fun stdout_text :: "event list \<Rightarrow> string" where
  "stdout_text [] = []"
| "stdout_text (StdoutData d # es) = d @ stdout_text es"
| "stdout_text (e # es) = stdout_text es"

fun stderr_text :: "event list \<Rightarrow> string" where
  "stderr_text [] = []"
| "stderr_text (StderrData d # es) = d @ stderr_text es"
| "stderr_text (e # es) = stderr_text es"

text \<open>The extension that \<^verbatim>\<open>detectImageMimeType\<close> looks up: what follows the last dot, in lower case.\<close>

definition ext_of :: "string \<Rightarrow> string" where
  "ext_of p = toLowerCase (rev (takeWhile (\<lambda>c. c \<noteq> CHR ''.'') (rev p)))"

text \<open>
  The raw text of the example of section 8 and the value it denotes.
\<close>

definition red_circle_raw :: string where
  \<open>red_circle_raw =
     ''{"messages":[{"role":"user","content":[]},'' @
     ''{"role":"assistant","content":[{"type":"text","text":"A red circle."}]}]}''\<close>

definition red_circle_json :: json where
  "red_circle_json =
     JObj [(''messages'', JArr
       [JObj [(''role'', JStr ''user''), (''content'', JArr [])],
        JObj [(''role'', JStr ''assistant''),
              (''content'', JArr [JObj [(''type'', JStr ''text''),
                                       (''text'', JStr ''A red circle.'')]])]])]"

text \<open>The two trigger identifiers (line 71) and the condition under which \<^verbatim>\<open>execute\<close> delegates.\<close>

definition trigger_model :: "ExecutionContext \<Rightarrow> bool" where
  "trigger_model ctx = (model ctx = Some ''glm-4.7'' \<or> model ctx = Some ''glm-4.7-long'')"

text \<open>
  While the promise is pending nothing but the two buffers has changed since the spawn:
  the signal is as it was, the abort listener is attached and the child was not killed.
\<close>

definition untouched :: "bool option \<Rightarrow> invocation \<Rightarrow> bool" where
  "untouched sig s =
     (settled s = None \<and> signal s = sig \<and> listening s = (sig \<noteq> None) \<and> kills s = 0)"

text \<open>
  Whether the inner \<^verbatim>\<open>try\<close> block raises after a successful parse (a TypeError, caught at
  line 169).
\<close>

definition extraction_raises :: "(string \<Rightarrow> json option) \<Rightarrow> string \<Rightarrow> bool" where
  "extraction_raises parse raw =
     (case parse raw of
        None \<Rightarrow> False
      | Some j \<Rightarrow> (case summaryText j raw of Inl e \<Rightarrow> True | Inr s \<Rightarrow> False))"

text \<open>
  Two outputs of the analysis process and the values they denote, with \<^verbatim>\<open>JSON.parse\<close>
  restricted to each: an assistant message whose content starts with \<^verbatim>\<open>null\<close>, and an
  assistant message with an empty content.
\<close>

definition null_entry_raw :: string where
  \<open>null_entry_raw =
     ''{"messages":[{"role":"assistant","content":[null,{"type":"text","text":"hi"}]}]}''\<close>

definition null_entry_json :: json where
  "null_entry_json =
     JObj [(''messages'', JArr
       [JObj [(''role'', JStr ''assistant''),
              (''content'', JArr [JNull, JObj [(''type'', JStr ''text''), (''text'', JStr ''hi'')]])]])]"

definition null_entry_parse :: "string \<Rightarrow> json option" where
  "null_entry_parse s = (if s = null_entry_raw then Some null_entry_json else None)"

definition empty_content_raw :: string where
  \<open>empty_content_raw = ''{"messages":[{"role":"assistant","content":[]}]}''\<close>

definition empty_content_json :: json where
  "empty_content_json =
     JObj [(''messages'', JArr [JObj [(''role'', JStr ''assistant''), (''content'', JArr [])]])]"

definition empty_content_parse :: "string \<Rightarrow> json option" where
  "empty_content_parse s = (if s = empty_content_raw then Some empty_content_json else None)"

section \<open>Properties of the classifier\<close>

lemma js_split_nonempty: "js_split sep s \<noteq> []"
  by (induction s) (auto split: list.splits)

lemma js_split_no_sep: "sep \<notin> set s \<Longrightarrow> js_split sep s = [s]"
  by (induction s) auto

lemma length_js_split: "length (js_split sep s) = Suc (length (filter (\<lambda>c. c = sep) s))"
  by (induction s) (auto split: list.splits)

lemma js_split_tl_nonempty:
  assumes "sep \<in> set s" and "js_split sep s = seg # segs"
  shows "segs \<noteq> []"
proof -
  from assms(1) have "filter (\<lambda>c. c = sep) s \<noteq> []"
    by (auto simp: filter_empty_conv)
  then have "2 \<le> length (js_split sep s)"
    by (cases "filter (\<lambda>c. c = sep) s") (auto simp: length_js_split)
  with assms(2) show ?thesis by auto
qed

text \<open>The last segment of a split is what follows the last separator.\<close>

lemma last_js_split: "last (js_split sep s) = rev (takeWhile (\<lambda>c. c \<noteq> sep) (rev s))"
proof (induction s)
  case Nil
  then show ?case by simp
next
  case (Cons c cs)
  show ?case
  proof (cases "sep \<in> set cs")
    case False
    then show ?thesis
      by (cases "c = sep") (auto simp: js_split_no_sep takeWhile_append)
  next
    case True
    obtain seg segs where sp: "js_split sep cs = seg # segs"
      using js_split_nonempty[of sep cs] by (cases "js_split sep cs") auto
    have ne: "segs \<noteq> []" using js_split_tl_nonempty[OF True sp] .
    have "last (js_split sep (c # cs)) = last (js_split sep cs)"
      using sp ne by (cases "c = sep") auto
    moreover have "takeWhile (\<lambda>c. c \<noteq> sep) (rev (c # cs)) = takeWhile (\<lambda>c. c \<noteq> sep) (rev cs)"
      using True by (auto simp: takeWhile_append)
    ultimately show ?thesis using Cons by simp
  qed
qed

lemma detect_ext: "detectImageMimeType p =
   (if ext_of p \<in> set supported then Some (''image/'' @ (if ext_of p = ''jpg'' then ''jpeg'' else ext_of p)) else None)"
  by (auto simp: detectImageMimeType_def pop_def js_split_nonempty last_js_split ext_of_def js_includes_def supported_def)

lemma lower_slash: "CHR ''/'' \<in> set e \<Longrightarrow> CHR ''/'' \<in> set (toLowerCase e)"
proof -
  have "lower_char CHR ''/'' = CHR ''/''" by (simp add: lower_char_def upper_chars_def lower_chars_def)
  then show "CHR ''/'' \<in> set e \<Longrightarrow> CHR ''/'' \<in> set (toLowerCase e)"
    unfolding toLowerCase_def by (metis image_eqI set_map)
qed

lemma supported_no_slash: "x \<in> set supported \<Longrightarrow> CHR ''/'' \<notin> set x"
  by (auto simp: supported_def)

lemma supported_no_dot: "x \<in> set supported \<Longrightarrow> CHR ''.'' \<notin> set x"
  by (auto simp: supported_def)

lemma takeWhile_nested:
  "x \<in> set (takeWhile P r) \<Longrightarrow> \<not> Q x \<Longrightarrow> takeWhile Q (takeWhile P r) = takeWhile Q r"
  by (induction r) (auto split: if_splits)

lemma slash_before_dot:
  "CHR ''/'' \<in> set r \<Longrightarrow> CHR ''.'' \<notin> set (takeWhile (\<lambda>c. c \<noteq> CHR ''/'') r)
   \<Longrightarrow> CHR ''/'' \<in> set (takeWhile (\<lambda>c. c \<noteq> CHR ''.'') r)"
  by (induction r) (auto split: if_splits)


lemma set_supported: "set supported = {''jpg'', ''jpeg'', ''png'', ''gif'', ''webp''}"
  by (auto simp: supported_def)

text \<open>
  Where the classifier of the code and the classification by file extension agree: on
  every path that is not itself one of the five words and whose file name is not a dot
  followed by one of the five words (in any case).
\<close>

lemma classify_agrees:
  assumes "toLowerCase p \<notin> set supported"
    and "\<forall>e. file_name p = CHR ''.'' # e \<longrightarrow> toLowerCase e \<notin> set supported"
  shows "classify p = classify_spec p"
proof (cases "CHR ''.'' \<in> set (file_name p)")
  case True
  let ?e = "rev (takeWhile (\<lambda>c. c \<noteq> CHR ''.'') (rev p))"
  from True have "CHR ''.'' \<in> set (takeWhile (\<lambda>c. c \<noteq> CHR ''/'') (rev p))"
    by (simp add: file_name_def)
  then have "takeWhile (\<lambda>c. c \<noteq> CHR ''.'') (takeWhile (\<lambda>c. c \<noteq> CHR ''/'') (rev p))
             = takeWhile (\<lambda>c. c \<noteq> CHR ''.'') (rev p)"
    by (rule takeWhile_nested) simp
  then have e: "rev (takeWhile (\<lambda>c. c \<noteq> CHR ''.'') (rev (file_name p))) = ?e"
    by (simp add: file_name_def)
  show ?thesis
  proof (cases "file_name p = CHR ''.'' # ?e")
    case hidden: True
    then have "file_extension p = None"
      using e by (simp add: file_extension_def Let_def)
    moreover have "ext_of p \<notin> set supported"
      using assms(2) hidden by (simp add: ext_of_def)
    ultimately show ?thesis
      by (simp add: classify_def classify_spec_def detect_ext)
  next
    case False
    then have "file_extension p = Some ?e"
      using True e by (simp add: file_extension_def Let_def)
    then show ?thesis
      by (simp add: classify_def classify_spec_def detect_ext ext_of_def set_supported Let_def)
  qed
next
  case False
  then have spec: "classify_spec p = NotImage"
    by (simp add: classify_spec_def file_extension_def Let_def)
  have "ext_of p \<notin> set supported"
  proof
    assume sup: "ext_of p \<in> set supported"
    then have ns: "CHR ''/'' \<notin> set (takeWhile (\<lambda>c. c \<noteq> CHR ''.'') (rev p))"
      using lower_slash supported_no_slash unfolding ext_of_def by (metis set_rev)
    have nd: "CHR ''.'' \<notin> set (takeWhile (\<lambda>c. c \<noteq> CHR ''/'') (rev p))"
      using False by (simp add: file_name_def)
    have "CHR ''/'' \<notin> set (rev p)"
      using slash_before_dot[OF _ nd] ns by blast
    then have "takeWhile (\<lambda>c. c \<noteq> CHR ''/'') (rev p) = rev p"
      by (auto simp: takeWhile_eq_all_conv)
    with nd have "CHR ''.'' \<notin> set (rev p)" by simp
    then have tw: "takeWhile (\<lambda>c. c \<noteq> CHR ''.'') (rev p) = rev p"
      by (auto simp: takeWhile_eq_all_conv)
    have "ext_of p = toLowerCase p" unfolding ext_of_def tw by simp
    with sup assms(1) show False by simp
  qed
  then show ?thesis using spec by (simp add: classify_def detect_ext)
qed

text \<open>
  A resolved path is absolute, so it contains a separator and is never one of the five
  words itself.
\<close>

lemma classify_agrees_resolved:
  assumes "CHR ''/'' \<in> set p"
    and "\<forall>e. file_name p = CHR ''.'' # e \<longrightarrow> toLowerCase e \<notin> set supported"
  shows "classify p = classify_spec p"
proof -
  from assms(1) have "toLowerCase p \<notin> set supported"
    using lower_slash supported_no_slash by blast
  then show ?thesis using assms(2) by (rule classify_agrees)
qed

lemma classify_photo:
  "classify ''/home/u/Photo.JPG'' = Image ''image/jpeg'' \<and>
   classify_spec ''/home/u/Photo.JPG'' = Image ''image/jpeg''"
  by (simp add: classify_def detectImageMimeType_def pop_def toLowerCase_def lower_char_def
      upper_chars_def lower_chars_def js_includes_def supported_def classify_spec_def
      file_extension_def file_name_def)


section \<open>Properties of the read router\<close>

lemmas classify_eval =
  classify_def detectImageMimeType_def pop_def toLowerCase_def lower_char_def upper_chars_def lower_chars_def
  js_includes_def supported_def

text \<open>
  Claim C1. \<^verbatim>\<open>execute\<close> spawns the analysis process if and only if the active model is
  one of the two trigger identifiers and the resolved path classifies as an image. In
  every other case it calls the standard read tool once, with the parameters it was
  given, returns that result unchanged, spawns nothing and sends no update.
\<close>

theorem execute_delegates_iff:
  "let r = execute resolve localRead parse params sig ctx events;
       absolutePath = resolve (cwd ctx) (path params);
       delegate = (trigger_model ctx \<and> classify absolutePath \<noteq> NotImage)
   in (delegate \<longrightarrow>
         spawns r = [(''pi'', analysis_args absolutePath)] \<and> direct_reads r = [] \<and>
         (\<forall>d. returned r \<noteq> Some (Direct d)))
    \<and> (\<not> delegate \<longrightarrow>
         spawns r = [] \<and> child_kills r = 0 \<and> updates r = [] \<and>
         direct_reads r = [params] \<and> returned r = Some (Direct (localRead params)))"
  by (auto simp: execute_def Let_def classify_def standard_read_def trigger_model_def
      split: option.splits prod.splits DelegationOutcome.splits)

theorem execute_delegates_iff_witness:
  "(trigger_model \<lparr>cwd = ''/w'', model = Some ''glm-4.7-long'', hasUI = False\<rparr> \<and>
    classify ''/w/shot.PNG'' \<noteq> NotImage \<and>
    spawns (execute (\<lambda>c p. c @ ''/'' @ p) path (\<lambda>s. None) \<lparr>path = ''shot.PNG''\<rparr> (Some False)
              \<lparr>cwd = ''/w'', model = Some ''glm-4.7-long'', hasUI = False\<rparr>
              [StdoutData ''a chart'', Close (Some 0)])
      = [(''pi'', analysis_args ''/w/shot.PNG'')])
   \<and> (\<not> trigger_model \<lparr>cwd = ''/w'', model = Some ''glm-4.6v'', hasUI = False\<rparr> \<and>
    returned (execute (\<lambda>c p. c @ ''/'' @ p) path (\<lambda>s. None) \<lparr>path = ''shot.PNG''\<rparr> (Some False)
              \<lparr>cwd = ''/w'', model = Some ''glm-4.6v'', hasUI = False\<rparr>
              [StdoutData ''a chart'', Close (Some 0)])
      = Some (Direct ''shot.PNG''))"
proof -
  have t: "trigger_model \<lparr>cwd = ''/w'', model = Some ''glm-4.7-long'', hasUI = False\<rparr>"
    by (simp add: trigger_model_def)
  have n: "\<not> trigger_model \<lparr>cwd = ''/w'', model = Some ''glm-4.6v'', hasUI = False\<rparr>"
    by (simp add: trigger_model_def)
  have c: "classify ''/w/shot.PNG'' \<noteq> NotImage"
    by (simp add: classify_eval)
  show ?thesis
    using t n c
      execute_delegates_iff [of "\<lambda>c p. c @ ''/'' @ p" path "\<lambda>s. None" "\<lparr>path = ''shot.PNG''\<rparr>"
        "Some False" "\<lparr>cwd = ''/w'', model = Some ''glm-4.7-long'', hasUI = False\<rparr>"
        "[StdoutData ''a chart'', Close (Some 0)]"]
      execute_delegates_iff [of "\<lambda>c p. c @ ''/'' @ p" path "\<lambda>s. None" "\<lparr>path = ''shot.PNG''\<rparr>"
        "Some False" "\<lparr>cwd = ''/w'', model = Some ''glm-4.6v'', hasUI = False\<rparr>"
        "[StdoutData ''a chart'', Close (Some 0)]"]
    by (simp add: Let_def)
qed

text \<open>
  Claim C2. When the analysis is started and its outcome is a process error or a
  cancellation, \<^verbatim>\<open>execute\<close> throws: the error is marked \<^verbatim>\<open>isToolError\<close>, its message
  carries the message of the failure and names the common causes (an unsupported image, a
  connection issue). No read result is returned and the standard read tool is not called.
\<close>

theorem execute_failure_is_tool_error:
  assumes "trigger_model ctx"
    and "classify (resolve (cwd ctx) (path params)) \<noteq> NotImage"
    and "fst (invoke sig events) = Some err"
    and "err = Cancelled \<or> err = ProcessError m"
  shows "\<exists>e. returned (execute resolve localRead parse params sig ctx events) = Some (Thrown e) \<and>
             isToolError e \<and>
             message e = ''Image analysis failed with glm-4.6v: '' @ error_message err @
               ''. The image may not be supported (e.g., animated GIFs) or there was a connection issue.'' \<and>
             sublist ''The image may not be supported'' (message e) \<and>
             sublist ''there was a connection issue'' (message e) \<and>
             direct_reads (execute resolve localRead parse params sig ctx events) = []"
proof -
  let ?e = "analysis_failed err"
  have r: "returned (execute resolve localRead parse params sig ctx events) = Some (Thrown ?e)"
    and d: "direct_reads (execute resolve localRead parse params sig ctx events) = []"
    using assms
    by (auto simp: execute_def Let_def classify_def trigger_model_def
        split: option.splits prod.splits)
  have s1: "sublist ''The image may not be supported'' (message ?e)"
    unfolding sublist_def analysis_failed_def
    by (rule exI [of _ "''Image analysis failed with glm-4.6v: '' @ error_message err @ ''. ''"],
        rule exI [of _ "'' (e.g., animated GIFs) or there was a connection issue.''"]) simp
  have s2: "sublist ''there was a connection issue'' (message ?e)"
    unfolding sublist_def analysis_failed_def
    by (rule exI [of _ "''Image analysis failed with glm-4.6v: '' @ error_message err @
          ''. The image may not be supported (e.g., animated GIFs) or ''"],
        rule exI [of _ "''.''"]) simp
  show ?thesis
    using r d s1 s2 by (intro exI [of _ ?e]) (simp add: analysis_failed_def)
qed

lemmas invoke_eval =
  invoke_def spawned_def reject_def resolveResult_def show_code_def show_int_def
  show_nat.simps trim_def is_space_def Let_def

theorem execute_failure_is_tool_error_witness:
  "trigger_model \<lparr>cwd = ''/w'', model = Some ''glm-4.7'', hasUI = False\<rparr> \<and>
   classify ''/w/shot.PNG'' \<noteq> NotImage \<and>
   fst (invoke (Some False) [StderrData ''model unavailable'', Close (Some 1)])
     = Some (ProcessError ''pi subprocess failed (1): model unavailable'') \<and>
   (\<exists>e. returned (execute (\<lambda>c p. c @ ''/'' @ p) path (\<lambda>s. None) \<lparr>path = ''shot.PNG''\<rparr>
                 (Some False) \<lparr>cwd = ''/w'', model = Some ''glm-4.7'', hasUI = False\<rparr>
                 [StderrData ''model unavailable'', Close (Some 1)]) = Some (Thrown e) \<and>
        isToolError e \<and>
        message e = ''Image analysis failed with glm-4.6v: pi subprocess failed (1): model unavailable. The image may not be supported (e.g., animated GIFs) or there was a connection issue.'')"
proof -
  have t: "trigger_model \<lparr>cwd = ''/w'', model = Some ''glm-4.7'', hasUI = False\<rparr>"
    by (simp add: trigger_model_def)
  have c: "classify ((\<lambda>c p. c @ ''/'' @ p)
             (cwd \<lparr>cwd = ''/w'', model = Some ''glm-4.7'', hasUI = False\<rparr>)
             (path \<lparr>path = ''shot.PNG''\<rparr>)) \<noteq> NotImage"
    by (simp add: classify_eval)
  have i: "fst (invoke (Some False) [StderrData ''model unavailable'', Close (Some 1)])
             = Some (ProcessError ''pi subprocess failed (1): model unavailable'')"
    by (simp add: invoke_eval)
  have e: "ProcessError ''pi subprocess failed (1): model unavailable'' = Cancelled \<or>
           ProcessError ''pi subprocess failed (1): model unavailable''
             = ProcessError ''pi subprocess failed (1): model unavailable''"
    by simp
  show ?thesis
    using t c i e
      execute_failure_is_tool_error
        [where ctx = "\<lparr>cwd = ''/w'', model = Some ''glm-4.7'', hasUI = False\<rparr>"
           and resolve = "\<lambda>c p. c @ ''/'' @ p" and params = "\<lparr>path = ''shot.PNG''\<rparr>"
           and sig = "Some False"
           and events = "[StderrData ''model unavailable'', Close (Some 1)]"
           and err = "ProcessError ''pi subprocess failed (1): model unavailable''"
           and m = "''pi subprocess failed (1): model unavailable''"
           and localRead = path and parse = "\<lambda>s. None"]
    by auto
qed

text \<open>
  Claim C6. When the analysis is started and its outcome is \<open>Success\<close> with the text \<open>t\<close>,
  \<^verbatim>\<open>execute\<close> returns a read result with one text block, which is
  \<^verbatim>\<open>[Image analyzed with glm-4.6v]\<close>, two newlines and the normalized summary of \<open>t\<close>, and
  whose details record the model \<^verbatim>\<open>glm-4.6v\<close>. For the raw text of the example, with one
  assistant text entry \<^verbatim>\<open>A red circle.\<close>, the text of the block ends in \<^verbatim>\<open>A red circle.\<close>
\<close>

theorem execute_success_result:
  assumes "trigger_model ctx"
    and "classify (resolve (cwd ctx) (path params)) \<noteq> NotImage"
    and "fst (invoke sig events) = Some (Success t)"
  shows "returned (execute resolve localRead parse params sig ctx events)
           = Some (Analyzed
               \<lparr>content = [\<lparr>tc_type = ''text'',
                             tc_text = ''[Image analyzed with glm-4.6v]'' @ [CHR 0x0A, CHR 0x0A] @
                                       normalize_summary parse t\<rparr>],
                details = \<lparr>summaryModel = ''glm-4.6v''\<rparr>\<rparr>)
         \<and> (t = red_circle_raw \<and> parse red_circle_raw = Some red_circle_json \<longrightarrow>
              (\<exists>r b. returned (execute resolve localRead parse params sig ctx events)
                        = Some (Analyzed r) \<and>
                     content r = [b] \<and> suffix ''A red circle.'' (tc_text b)))"
proof -
  have r: "returned (execute resolve localRead parse params sig ctx events)
             = Some (Analyzed (readResult (normalize_summary parse t)))"
    using assms
    by (auto simp: execute_def Let_def classify_def trigger_model_def
        split: option.splits prod.splits)
  have n: "parse red_circle_raw = Some red_circle_json \<Longrightarrow>
           normalize_summary parse red_circle_raw = ''A red circle.''"
    by (simp add: normalize_summary_def summaryText_def red_circle_json_def findLast_def
        is_assistant_def content_text_def is_text_def element_string_def)
  show ?thesis
    using r n by (auto simp: readResult_def suffix_def)
qed

theorem execute_success_result_witness:
  "trigger_model \<lparr>cwd = ''/w'', model = Some ''glm-4.7'', hasUI = False\<rparr> \<and>
   classify ''/w/shot.PNG'' \<noteq> NotImage \<and>
   fst (invoke (Some False) [StdoutData red_circle_raw, Close (Some 0)])
     = Some (Success red_circle_raw) \<and>
   returned (execute (\<lambda>c p. c @ ''/'' @ p) path
               (\<lambda>s. if s = red_circle_raw then Some red_circle_json else None)
               \<lparr>path = ''shot.PNG''\<rparr> (Some False)
               \<lparr>cwd = ''/w'', model = Some ''glm-4.7'', hasUI = False\<rparr>
               [StdoutData red_circle_raw, Close (Some 0)])
     = Some (Analyzed
         \<lparr>content = [\<lparr>tc_type = ''text'',
                       tc_text = ''[Image analyzed with glm-4.6v]'' @ [CHR 0x0A, CHR 0x0A] @
                                 ''A red circle.''\<rparr>],
          details = \<lparr>summaryModel = ''glm-4.6v''\<rparr>\<rparr>)"
proof -
  let ?parse = "\<lambda>s. if s = red_circle_raw then Some red_circle_json else None"
  have t: "trigger_model \<lparr>cwd = ''/w'', model = Some ''glm-4.7'', hasUI = False\<rparr>"
    by (simp add: trigger_model_def)
  have c: "classify ((\<lambda>c p. c @ ''/'' @ p)
             (cwd \<lparr>cwd = ''/w'', model = Some ''glm-4.7'', hasUI = False\<rparr>)
             (path \<lparr>path = ''shot.PNG''\<rparr>)) \<noteq> NotImage"
    by (simp add: classify_eval)
  have i: "fst (invoke (Some False) [StdoutData red_circle_raw, Close (Some 0)])
             = Some (Success red_circle_raw)"
    by (simp add: invoke_eval red_circle_raw_def)
  have n: "normalize_summary ?parse red_circle_raw = ''A red circle.''"
    by (simp add: normalize_summary_def summaryText_def red_circle_json_def findLast_def
        is_assistant_def content_text_def is_text_def element_string_def)
  show ?thesis
    using t c i n
      execute_success_result
        [where ctx = "\<lparr>cwd = ''/w'', model = Some ''glm-4.7'', hasUI = False\<rparr>"
           and resolve = "\<lambda>c p. c @ ''/'' @ p" and params = "\<lparr>path = ''shot.PNG''\<rparr>"
           and sig = "Some False"
           and events = "[StdoutData red_circle_raw, Close (Some 0)]"
           and t = red_circle_raw and localRead = path and parse = ?parse]
    by simp
qed

section \<open>Properties of the delegation invoker\<close>

lemma run_append: "run (xs @ ys) s = run ys (run xs s)"
  by (induction xs arbitrary: s) auto

text \<open>Only the first settlement counts: later events do not change the outcome.\<close>

lemma deliver_settled: "settled s \<noteq> None \<Longrightarrow> settled (deliver e s) = settled s"
  by (cases e) (auto simp: reject_def resolveResult_def)

lemma run_settled: "settled s \<noteq> None \<Longrightarrow> settled (run es s) = settled s"
  by (induction es arbitrary: s) (auto simp: deliver_settled)

lemma run_pending_before: "settled (run es s) = None \<Longrightarrow> settled s = None"
  by (rule ccontr) (simp add: run_settled)

lemma deliver_untouched:
  "untouched sig s \<Longrightarrow> settled (deliver e s) = None \<Longrightarrow>
   untouched sig (deliver e s) \<and>
   stdout (deliver e s) = stdout s @ stdout_text [e] \<and>
   stderr (deliver e s) = stderr s @ stderr_text [e]"
  by (cases e) (auto simp: untouched_def reject_def resolveResult_def split: if_splits)

lemma stdout_text_Cons: "stdout_text (e # es) = stdout_text [e] @ stdout_text es"
  by (cases e) auto

lemma stderr_text_Cons: "stderr_text (e # es) = stderr_text [e] @ stderr_text es"
  by (cases e) auto

lemma run_untouched:
  "untouched sig s \<Longrightarrow> settled (run es s) = None \<Longrightarrow>
   untouched sig (run es s) \<and>
   stdout (run es s) = stdout s @ stdout_text es \<and>
   stderr (run es s) = stderr s @ stderr_text es"
proof (induction es arbitrary: s)
  case Nil
  then show ?case by simp
next
  case (Cons e es)
  from Cons.prems(2) have p: "settled (deliver e s) = None"
    using run_pending_before [of es "deliver e s"] by simp
  note d = deliver_untouched [OF Cons.prems(1) p]
  from d Cons.prems(2) have r: "untouched sig (run es (deliver e s)) \<and>
      stdout (run es (deliver e s)) = stdout (deliver e s) @ stdout_text es \<and>
      stderr (run es (deliver e s)) = stderr (deliver e s) @ stderr_text es"
    using Cons.IH [of "deliver e s"] by simp
  show ?case
    using r d stdout_text_Cons [of e es] stderr_text_Cons [of e es] by simp
qed

lemma spawned_untouched: "untouched sig (spawned sig)"
  by (simp add: untouched_def spawned_def)

lemma pending_state:
  assumes "fst (invoke sig pre) = None"
  shows "untouched sig (run pre (spawned sig))"
    and "stdout (run pre (spawned sig)) = stdout_text pre"
    and "stderr (run pre (spawned sig)) = stderr_text pre"
proof -
  from assms have p: "settled (run pre (spawned sig)) = None"
    by (simp add: invoke_def Let_def)
  note r = run_untouched [OF spawned_untouched p]
  from r show "untouched sig (run pre (spawned sig))" by simp
  from r show "stdout (run pre (spawned sig)) = stdout_text pre" by (simp add: spawned_def)
  from r show "stderr (run pre (spawned sig)) = stderr_text pre" by (simp add: spawned_def)
qed

text \<open>The outcome is decided by the first event that settles the pending promise.\<close>

lemma outcome_after:
  "settled (deliver e (run pre (spawned sig))) \<noteq> None \<Longrightarrow>
   fst (invoke sig (pre @ e # post)) = settled (deliver e (run pre (spawned sig)))"
  by (simp add: invoke_def Let_def run_append run_settled)

lemma close_nonzero_outcome:
  assumes "fst (invoke sig pre) = None" and "code \<noteq> Some 0"
  shows "fst (invoke sig (pre @ Close code # post))
           = Some (ProcessError (''pi subprocess failed ('' @ show_code code @ ''): '' @ stderr_text pre))"
proof -
  note u = pending_state [OF assms(1)]
  have "settled (deliver (Close code) (run pre (spawned sig)))
          = Some (ProcessError (''pi subprocess failed ('' @ show_code code @ ''): '' @ stderr_text pre))"
    using u assms(2) by (simp add: untouched_def reject_def)
  then show ?thesis using outcome_after [of "Close code" pre sig post] by simp
qed

lemma close_zero_outcome:
  assumes "fst (invoke sig pre) = None" and "sig \<noteq> Some True"
  shows "fst (invoke sig (pre @ Close (Some 0) # post)) = Some (Success (trim (stdout_text pre)))"
proof -
  note u = pending_state [OF assms(1)]
  have "settled (deliver (Close (Some 0)) (run pre (spawned sig)))
          = Some (Success (trim (stdout_text pre)))"
    using u assms(2) by (simp add: untouched_def resolveResult_def)
  then show ?thesis using outcome_after [of "Close (Some 0)" pre sig post] by simp
qed

text \<open>
  An abort that arrives while the promise is pending, on a signal that was not aborted
  when the listener was attached: the child is killed once and the outcome is
  \<open>Cancelled\<close>, whatever was buffered and whatever follows.
\<close>

lemma kills_after_abort: "signal s = Some True \<Longrightarrow> kills (run es s) = kills s"
proof (induction es arbitrary: s)
  case Nil
  then show ?case by simp
next
  case (Cons e es)
  have "signal (deliver e s) = Some True \<and> kills (deliver e s) = kills s"
    using Cons.prems by (cases e) (auto simp: reject_def resolveResult_def)
  then show ?case using Cons.IH [of "deliver e s"] by simp
qed

lemma abort_while_pending:
  assumes "fst (invoke (Some False) pre) = None"
  shows "invoke (Some False) (pre @ Abort # post) = (Some Cancelled, 1)"
proof -
  note u = pending_state [OF assms(1)]
  let ?s = "deliver Abort (run pre (spawned (Some False)))"
  have s: "settled ?s = Some Cancelled" and k: "kills ?s = 1" and g: "signal ?s = Some True"
    using u by (simp_all add: untouched_def reject_def)
  have "settled (run post ?s) = Some Cancelled"
    using s run_settled [of ?s post] by simp
  moreover have "kills (run post ?s) = 1"
    using kills_after_abort [OF g, of post] k by simp
  ultimately show ?thesis
    by (simp add: invoke_def Let_def run_append)
qed

lemma already_aborted_never_kills: "snd (invoke (Some True) events) = 0"
  using kills_after_abort [of "spawned (Some True)" events]
  by (simp add: invoke_def Let_def spawned_def)

lemma execute_thrown:
  assumes "trigger_model ctx"
    and "classify (resolve (cwd ctx) (path params)) \<noteq> NotImage"
    and "fst (invoke sig events) = Some err"
    and "\<forall>t. err \<noteq> Success t"
  shows "returned (execute resolve localRead parse params sig ctx events)
           = Some (Thrown (analysis_failed err))"
  using assms
  by (cases err)
     (auto simp: execute_def Let_def classify_def trigger_model_def
      split: option.splits prod.splits)

text \<open>
  Claim C7, as amended. For an invocation that is still pending when the child closes (no
  cancellation and no process-level error has settled it before): a \<^verbatim>\<open>close\<close> with an exit
  code other than zero gives \<open>ProcessError\<close> with the message
  \<^verbatim>\<open>pi subprocess failed (<code>): <stderr>\<close>, which contains the exit code and the
  standard-error text accumulated so far, and \<^verbatim>\<open>execute\<close> throws it as a tool error; a
  \<^verbatim>\<open>close\<close> with exit code zero, on a signal that is not aborted, gives \<open>Success\<close> with the
  trimmed standard-output text accumulated so far.
\<close>

theorem close_outcome:
  assumes "fst (invoke sig pre) = None"
  shows "(code \<noteq> Some 0 \<longrightarrow>
           (\<exists>m. fst (invoke sig (pre @ Close code # post)) = Some (ProcessError m) \<and>
                m = ''pi subprocess failed ('' @ show_code code @ ''): '' @ stderr_text pre \<and>
                sublist (show_code code) m \<and> sublist (stderr_text pre) m))
       \<and> (code = Some 0 \<and> sig \<noteq> Some True \<longrightarrow>
           fst (invoke sig (pre @ Close code # post)) = Some (Success (trim (stdout_text pre))))
       \<and> (code \<noteq> Some 0 \<and> trigger_model ctx \<and>
          classify (resolve (cwd ctx) (path params)) \<noteq> NotImage \<longrightarrow>
           (\<exists>e. returned (execute resolve localRead parse params sig ctx (pre @ Close code # post))
                  = Some (Thrown e) \<and> isToolError e))"
proof (intro conjI impI)
  assume c: "code \<noteq> Some 0"
  let ?m = "''pi subprocess failed ('' @ show_code code @ ''): '' @ stderr_text pre"
  have "sublist (show_code code) ?m"
    unfolding sublist_def
    by (rule exI [of _ "''pi subprocess failed (''"], rule exI [of _ "''): '' @ stderr_text pre"])
       simp
  moreover have "sublist (stderr_text pre) ?m"
    unfolding sublist_def
    by (rule exI [of _ "''pi subprocess failed ('' @ show_code code @ ''): ''"],
        rule exI [of _ "[]"]) simp
  ultimately show "\<exists>m. fst (invoke sig (pre @ Close code # post)) = Some (ProcessError m) \<and>
      m = ?m \<and> sublist (show_code code) m \<and> sublist (stderr_text pre) m"
    using close_nonzero_outcome [OF assms c, of post] by simp
next
  assume "code = Some 0 \<and> sig \<noteq> Some True"
  then show "fst (invoke sig (pre @ Close code # post)) = Some (Success (trim (stdout_text pre)))"
    using close_zero_outcome [OF assms, of post] by simp
next
  assume a: "code \<noteq> Some 0 \<and> trigger_model ctx \<and>
             classify (resolve (cwd ctx) (path params)) \<noteq> NotImage"
  let ?err = "ProcessError (''pi subprocess failed ('' @ show_code code @ ''): '' @ stderr_text pre)"
  have o: "fst (invoke sig (pre @ Close code # post)) = Some ?err"
    using close_nonzero_outcome [OF assms, of code post] a by simp
  have "returned (execute resolve localRead parse params sig ctx (pre @ Close code # post))
          = Some (Thrown (analysis_failed ?err))"
    using a by (intro execute_thrown [OF _ _ o]) simp_all
  then show "\<exists>e. returned (execute resolve localRead parse params sig ctx (pre @ Close code # post))
               = Some (Thrown e) \<and> isToolError e"
    by (simp add: analysis_failed_def)
qed

theorem close_outcome_witness:
  "fst (invoke (Some False) [StdoutData '' a chart '', StderrData ''model unavailable'']) = None \<and>
   fst (invoke (Some False)
          ([StdoutData '' a chart '', StderrData ''model unavailable''] @ Close (Some 1) # []))
     = Some (ProcessError ''pi subprocess failed (1): model unavailable'') \<and>
   fst (invoke (Some False)
          ([StdoutData '' a chart '', StderrData ''model unavailable''] @ Close (Some 0) # []))
     = Some (Success ''a chart'') \<and>
   trigger_model \<lparr>cwd = ''/w'', model = Some ''glm-4.7'', hasUI = False\<rparr> \<and>
   classify ''/w/shot.PNG'' \<noteq> NotImage \<and>
   (\<exists>e. returned (execute (\<lambda>c p. c @ ''/'' @ p) path (\<lambda>s. None) \<lparr>path = ''shot.PNG''\<rparr>
                 (Some False) \<lparr>cwd = ''/w'', model = Some ''glm-4.7'', hasUI = False\<rparr>
                 ([StdoutData '' a chart '', StderrData ''model unavailable''] @ Close (Some 1) # []))
          = Some (Thrown e) \<and> isToolError e)"
proof -
  have p: "fst (invoke (Some False) [StdoutData '' a chart '', StderrData ''model unavailable''])
             = None"
    by (simp add: invoke_eval)
  have s: "show_code (Some 1) = ''1''"
    by (simp add: show_code_def show_int_def show_nat.simps)
  have t: "trim '' a chart '' = ''a chart''"
    by (simp add: trim_def is_space_def)
  have m: "trigger_model \<lparr>cwd = ''/w'', model = Some ''glm-4.7'', hasUI = False\<rparr>"
    by (simp add: trigger_model_def)
  have c: "classify ''/w/shot.PNG'' \<noteq> NotImage"
    by (simp add: classify_eval)
  have one: "fst (invoke (Some False)
          ([StdoutData '' a chart '', StderrData ''model unavailable''] @ Close (Some 1) # []))
     = Some (ProcessError ''pi subprocess failed (1): model unavailable'') \<and>
     (\<exists>e. returned (execute (\<lambda>c p. c @ ''/'' @ p) path (\<lambda>s. None) \<lparr>path = ''shot.PNG''\<rparr>
                 (Some False) \<lparr>cwd = ''/w'', model = Some ''glm-4.7'', hasUI = False\<rparr>
                 ([StdoutData '' a chart '', StderrData ''model unavailable''] @ Close (Some 1) # []))
          = Some (Thrown e) \<and> isToolError e)"
    using s m c
      close_outcome [OF p, of "Some 1" "[]"
        "\<lparr>cwd = ''/w'', model = Some ''glm-4.7'', hasUI = False\<rparr>" "\<lambda>c p. c @ ''/'' @ p"
        "\<lparr>path = ''shot.PNG''\<rparr>" path "\<lambda>s. None"]
    by simp
  have zero: "fst (invoke (Some False)
          ([StdoutData '' a chart '', StderrData ''model unavailable''] @ Close (Some 0) # []))
     = Some (Success ''a chart'')"
    using t
      close_outcome [OF p, of "Some 0" "[]"
        "\<lparr>cwd = ''/w'', model = Some ''glm-4.7'', hasUI = False\<rparr>" "\<lambda>c p. c @ ''/'' @ p"
        "\<lparr>path = ''shot.PNG''\<rparr>" path "\<lambda>s. None"]
    by simp
  show ?thesis
    using p one zero m c by blast
qed

text \<open>
  The claim as it is written fails when a cancellation came first: the child then exits
  with code 1 and the outcome is \<open>Cancelled\<close>, not \<open>ProcessError\<close>.
\<close>

theorem close_after_abort_counterexample:
  "fst (invoke (Some False) [StderrData ''model unavailable'', Abort, Close (Some 1)])
     = Some Cancelled \<and>
   fst (invoke (Some False) [StderrData ''model unavailable'', Abort, Close (Some 1)])
     \<noteq> Some (ProcessError ''pi subprocess failed (1): model unavailable'')"
  by (simp add: invoke_eval)

text \<open>
  Claim C3, at the input where the code departs from it. The signal is already aborted
  when \<^verbatim>\<open>execute\<close> attaches its listener: no \<^verbatim>\<open>abort\<close> event follows, so
  \<^verbatim>\<open>child.kill()\<close> is never called. The child runs to its end; with exit code zero the
  outcome is \<open>Cancelled\<close> (line 145), with exit code 1 it is \<open>ProcessError\<close>.
\<close>

theorem aborted_signal_child_not_killed:
  "invoke (Some True) [StdoutData ''a chart'', Close (Some 0)] = (Some Cancelled, 0) \<and>
   invoke (Some True) [StderrData ''model unavailable'', Close (Some 1)]
     = (Some (ProcessError ''pi subprocess failed (1): model unavailable''), 0)"
  by (simp add: invoke_eval)

section \<open>Properties of the response normalizer\<close>

lemma get_prop_field: "get_prop v k = Inr r \<Longrightarrow> r = field k v"
  by (cases v) (auto simp: field_def)

lemma is_assistant_field:
  "is_assistant m = Inr b \<Longrightarrow> b = (field ''role'' m = Some (JStr ''assistant''))"
  by (auto simp: is_assistant_def split: sum.splits dest: get_prop_field)

lemma is_text_field:
  "is_text c = Inr b \<Longrightarrow> b = (field ''type'' c = Some (JStr ''text''))"
  by (auto simp: is_text_def split: sum.splits dest: get_prop_field)

lemma find_first_find:
  "find_first is_assistant xs = Inr r \<Longrightarrow>
   r = find (\<lambda>m. field ''role'' m = Some (JStr ''assistant'')) xs"
proof (induction xs)
  case Nil
  then show ?case by simp
next
  case (Cons x xs)
  then show ?case
    by (auto split: sum.splits if_splits dest: is_assistant_field)
qed

lemma last_filter_find:
  "(case filter P xs of [] \<Rightarrow> None | a # as \<Rightarrow> Some (last (a # as))) = find P (rev xs)"
proof (induction xs rule: rev_induct)
  case Nil
  then show ?case by simp
next
  case (snoc x xs)
  then show ?case by (auto split: list.splits)
qed

lemma findLast_last_assistant:
  "findLast is_assistant ms = Inr r \<Longrightarrow> r = last_assistant ms"
  unfolding findLast_def last_assistant_def last_filter_find
  by (rule find_first_find)

lemma filter_js_text_entries: "filter_js is_text cs = Inr ts \<Longrightarrow> ts = text_entries cs"
proof (induction cs arbitrary: ts)
  case Nil
  then show ?case by (simp add: text_entries_def)
next
  case (Cons c cs)
  then show ?case
    by (auto simp: text_entries_def split: sum.splits if_splits dest: is_text_field)
qed

lemma sequence_map:
  "sequence (map f xs) = Inr ys \<Longrightarrow> ys = map (\<lambda>x. case f x of Inl e \<Rightarrow> d | Inr y \<Rightarrow> y) xs"
proof (induction xs arbitrary: ys)
  case Nil
  then show ?case by simp
next
  case (Cons x xs)
  then show ?case by (cases "f x") (auto split: sum.splits)
qed

lemma sequence_map_all: "sequence (map f xs) = Inr ys \<Longrightarrow> x \<in> set xs \<Longrightarrow> \<exists>y. f x = Inr y"
proof (induction xs arbitrary: ys)
  case Nil
  then show ?case by simp
next
  case (Cons z zs)
  then show ?case by (cases "f z") (auto split: sum.splits)
qed

lemma content_text_spec:
  assumes "content_text c = Inr s"
  shows "\<exists>cs. c = JArr cs \<and> s = join [CHR 0x0A] (map entry_text (text_entries cs))"
proof -
  from assms obtain cs where c: "c = JArr cs"
    by (cases c) (auto simp: content_text_def)
  from assms c obtain ts vs ss where
    ts: "filter_js is_text cs = Inr ts" and
    vs: "sequence (map (\<lambda>c. get_prop c ''text'') ts) = Inr vs" and
    ss: "sequence (map element_string vs) = Inr ss" and
    s: "s = join [CHR 0x0A] ss"
    by (auto simp: content_text_def split: sum.splits)
  have t: "ts = text_entries cs" using ts by (rule filter_js_text_entries)
  have v: "vs = map (field ''text'') ts"
  proof -
    have "vs = map (\<lambda>x. case get_prop x ''text'' of Inl e \<Rightarrow> None | Inr y \<Rightarrow> y) ts"
      using vs by (rule sequence_map)
    moreover have "(case get_prop x ''text'' of Inl e \<Rightarrow> None | Inr y \<Rightarrow> y) = field ''text'' x"
      if "x \<in> set ts" for x
    proof -
      from sequence_map_all [OF vs that] obtain y where "get_prop x ''text'' = Inr y" by blast
      then show ?thesis by (auto dest: get_prop_field)
    qed
    ultimately show ?thesis by simp
  qed
  have "ss = map (\<lambda>x. case element_string x of Inl e \<Rightarrow> [] | Inr y \<Rightarrow> y) vs"
    using ss by (rule sequence_map)
  then have "ss = map entry_text ts"
    by (simp add: v entry_text_def)
  then show ?thesis using c s t by simp
qed

text \<open>The heart of the comparison: what the \<^verbatim>\<open>try\<close> block computes when it does not raise.\<close>

lemma summaryText_spec:
  assumes "parse raw = Some j" and "summaryText j raw = Inr s"
  shows "s = normalize_spec parse raw"
proof -
  from assms(2) obtain messages where m: "get_prop j ''messages'' = Inr messages"
    by (auto simp: summaryText_def split: sum.splits)
  then have fm: "field ''messages'' j = messages" by (auto dest: get_prop_field)
  show ?thesis
  proof (cases "\<exists>ms. messages = Some (JArr ms)")
    case False
    then have "s = raw"
      using assms(2) m by (auto simp: summaryText_def split: option.splits json.splits)
    moreover have "normalize_spec parse raw = raw"
      using False assms(1) fm by (auto simp: normalize_spec_def split: option.splits json.splits)
    ultimately show ?thesis by simp
  next
    case True
    then obtain ms where ms: "messages = Some (JArr ms)" by blast
    from assms(2) m ms obtain r where r: "findLast is_assistant ms = Inr r"
      by (auto simp: summaryText_def split: sum.splits)
    then have la: "last_assistant ms = r" by (auto dest: findLast_last_assistant)
    show ?thesis
    proof (cases r)
      case None
      then show ?thesis
        using assms m ms r la fm by (simp add: summaryText_def normalize_spec_def)
    next
      case (Some a)
      from assms(2) m ms r Some obtain content where c: "get_prop a ''content'' = Inr content"
        by (auto simp: summaryText_def split: sum.splits)
      then have fc: "field ''content'' a = content" by (auto dest: get_prop_field)
      show ?thesis
      proof (cases "truthy content")
        case True
        then obtain v where v: "content = Some v" by (cases content) auto
        with True have "content_text v = Inr s"
          using assms(2) m ms r Some c by (simp add: summaryText_def)
        then obtain cs where "v = JArr cs"
          and "s = join [CHR 0x0A] (map entry_text (text_entries cs))"
          using content_text_spec by blast
        then show ?thesis
          using assms(1) fm ms la Some fc v by (auto simp: normalize_spec_def)
      next
        case False
        then have "s = raw"
          using assms(2) m ms r Some c
          by (cases content) (simp_all add: summaryText_def)
        moreover have "\<not> (\<exists>cs. content = Some (JArr cs))"
          using False by auto
        then have "normalize_spec parse raw = raw"
          using assms(1) fm ms la Some fc
          by (auto simp: normalize_spec_def split: option.splits json.splits)
        ultimately show ?thesis by simp
      qed
    qed
  qed
qed

lemmas normalize_eval =
  normalize_summary_def summaryText_def findLast_def is_assistant_def content_text_def
  is_text_def element_string_def

lemmas normalize_spec_eval =
  normalize_spec_def field_def last_assistant_def text_entries_def entry_text_def
  element_string_def

text \<open>
  Claim C4, as amended. The normalizer always returns a string. When parsing fails the
  summary is the raw text. When parsing succeeds and reading the parsed value raises no
  exception, the summary is what the algorithm of the specification gives: the text
  entries of the content sequence of the last assistant message, joined by newlines, and
  the raw text when there is no such message or no content sequence. When reading the
  parsed value raises (a \<^verbatim>\<open>null\<close> entry is met, or a text cannot be converted to a string),
  the summary is the raw text.
\<close>

theorem normalize_follows_algorithm:
  "normalize_summary parse raw
     = (if extraction_raises parse raw then raw else normalize_spec parse raw)
   \<and> (parse raw = None \<longrightarrow> normalize_summary parse raw = raw)"
proof (cases "parse raw")
  case None
  then show ?thesis
    by (simp add: normalize_summary_def extraction_raises_def normalize_spec_def)
next
  case (Some j)
  show ?thesis
  proof (cases "summaryText j raw")
    case (Inl e)
    then show ?thesis using Some by (simp add: normalize_summary_def extraction_raises_def)
  next
    case (Inr s)
    then show ?thesis
      using Some summaryText_spec [of parse raw j s]
      by (simp add: normalize_summary_def extraction_raises_def)
  qed
qed

theorem normalize_follows_algorithm_witness:
  "(\<lambda>s. None) ''plain string, not json'' = (None :: json option) \<and>
   normalize_summary (\<lambda>s. None) ''plain string, not json'' = ''plain string, not json'' \<and>
   \<not> extraction_raises (\<lambda>s. if s = red_circle_raw then Some red_circle_json else None)
        red_circle_raw \<and>
   normalize_summary (\<lambda>s. if s = red_circle_raw then Some red_circle_json else None)
        red_circle_raw = ''A red circle.''"
proof -
  let ?parse = "\<lambda>s. if s = red_circle_raw then Some red_circle_json else None"
  have r: "\<not> extraction_raises ?parse red_circle_raw"
    by (simp add: extraction_raises_def red_circle_json_def normalize_eval)
  have s: "normalize_spec ?parse red_circle_raw = ''A red circle.''"
    by (simp add: red_circle_json_def normalize_spec_eval)
  have a: "normalize_summary ?parse red_circle_raw = ''A red circle.''"
    using r s normalize_follows_algorithm [of ?parse red_circle_raw, THEN conjunct1]
    by simp
  have b: "normalize_summary (\<lambda>s. None) ''plain string, not json'' = ''plain string, not json''"
    using normalize_follows_algorithm [of "\<lambda>s. None" "''plain string, not json''", THEN conjunct2]
    by simp
  show ?thesis
    using r a b by simp
qed

text \<open>
  The claim as it is written fails on a content sequence with a \<^verbatim>\<open>null\<close> entry: reading
  \<^verbatim>\<open>c.type\<close> raises, and the summary is the raw text, not the text entry \<^verbatim>\<open>hi\<close>.
\<close>

theorem null_entry_counterexample:
  "normalize_summary null_entry_parse null_entry_raw = null_entry_raw \<and>
   normalize_spec null_entry_parse null_entry_raw = ''hi'' \<and>
   normalize_summary null_entry_parse null_entry_raw
     \<noteq> normalize_spec null_entry_parse null_entry_raw"
proof -
  have a: "normalize_summary null_entry_parse null_entry_raw = null_entry_raw"
    by (simp add: null_entry_parse_def null_entry_json_def normalize_eval)
  have b: "normalize_spec null_entry_parse null_entry_raw = ''hi''"
    by (simp add: null_entry_parse_def null_entry_json_def normalize_spec_eval)
  have c: "null_entry_raw \<noteq> ''hi''"
    by (simp add: null_entry_raw_def)
  show ?thesis using a b c by simp
qed

text \<open>
  Claim C8, as amended. A raw text that is not empty gives an empty summary only when it
  parses to a record whose last assistant message has a content sequence whose text
  entries join to the empty string; in every other case the summary is not empty.
\<close>

theorem empty_summary_only_from_content:
  assumes "raw \<noteq> []" and "normalize_summary parse raw = []"
  shows "\<exists>j ms a cs. parse raw = Some j \<and> field ''messages'' j = Some (JArr ms) \<and>
           last_assistant ms = Some a \<and> field ''content'' a = Some (JArr cs) \<and>
           join [CHR 0x0A] (map entry_text (text_entries cs)) = []"
proof -
  from assms obtain j where j: "parse raw = Some j"
    by (cases "parse raw") (auto simp: normalize_summary_def)
  from assms j have s: "summaryText j raw = Inr []"
    by (cases "summaryText j raw") (auto simp: normalize_summary_def)
  have "normalize_spec parse raw = []"
    using summaryText_spec [of parse raw j "[]"] j s by simp
  then show ?thesis
    using assms(1) j
    by (auto simp: normalize_spec_def split: option.splits json.splits)
qed

theorem empty_summary_only_from_content_witness:
  "empty_content_raw \<noteq> [] \<and>
   normalize_summary empty_content_parse empty_content_raw = [] \<and>
   (\<exists>j ms a cs. empty_content_parse empty_content_raw = Some j \<and>
      field ''messages'' j = Some (JArr ms) \<and> last_assistant ms = Some a \<and>
      field ''content'' a = Some (JArr cs) \<and>
      join [CHR 0x0A] (map entry_text (text_entries cs)) = [])"
proof -
  have n: "empty_content_raw \<noteq> []"
    by (simp add: empty_content_raw_def)
  have e: "normalize_summary empty_content_parse empty_content_raw = []"
    by (simp add: empty_content_parse_def empty_content_json_def normalize_eval)
  show ?thesis
    using n e empty_summary_only_from_content [OF n e] by simp
qed

text \<open>
  The claim as it is written fails twice: a child that prints nothing and exits with code
  zero gives \<open>Success\<close> with an empty text, whose summary is empty; and a raw text that is
  not empty, with an assistant message of empty content, gives an empty summary.
\<close>

theorem empty_summary_counterexample:
  "fst (invoke None [Close (Some 0)]) = Some (Success []) \<and>
   normalize_summary empty_content_parse [] = [] \<and>
   empty_content_raw \<noteq> [] \<and>
   normalize_summary empty_content_parse empty_content_raw = []"
  by (simp add: invoke_eval empty_content_parse_def empty_content_json_def
      empty_content_raw_def normalize_eval)

section \<open>Properties of the command\<close>

lemma dialog_run_append:
  "dialog_run parse (xs @ ys) s = dialog_run parse ys (dialog_run parse xs s)"
  by (induction xs arbitrary: s) auto

text \<open>Once the dialog is finished, nothing more is shown.\<close>

lemma dialog_deliver_finished:
  "finished s \<noteq> None \<Longrightarrow>
   finished (dialog_deliver parse e s) = finished s \<and> shown (dialog_deliver parse e s) = shown s"
  by (cases e) (auto simp: done_with_def notify_def)

lemma dialog_run_finished:
  "finished s \<noteq> None \<Longrightarrow>
   finished (dialog_run parse es s) = finished s \<and> shown (dialog_run parse es s) = shown s"
proof (induction es arbitrary: s)
  case Nil
  then show ?case by simp
next
  case (Cons e es)
  then show ?case
    using dialog_deliver_finished [of s parse e] by simp
qed

lemma dialog_run_in_progress:
  "finished (dialog_run parse es s) = None \<Longrightarrow> finished s = None"
  by (rule ccontr) (simp add: dialog_run_finished)

text \<open>Notifications are only added.\<close>

lemma dialog_deliver_notified:
  "x \<in> set (notified s) \<Longrightarrow> x \<in> set (notified (dialog_deliver parse e s))"
  by (cases e) (auto simp: done_with_def notify_def split: option.splits)

lemma dialog_run_notified:
  "x \<in> set (notified s) \<Longrightarrow> x \<in> set (notified (dialog_run parse es s))"
  by (induction es arbitrary: s) (auto simp: dialog_deliver_notified)

text \<open>While the dialog is in progress nothing is shown and the loader is not aborted.\<close>

lemma dialog_deliver_quiet:
  "finished (dialog_deliver parse e s) = None \<Longrightarrow> shown s = [] \<Longrightarrow> \<not> d_aborted s \<Longrightarrow>
   shown (dialog_deliver parse e s) = [] \<and> \<not> d_aborted (dialog_deliver parse e s)"
  by (cases e) (auto simp: done_with_def notify_def split: option.splits if_splits)

lemma dialog_run_quiet:
  "finished (dialog_run parse es s) = None \<Longrightarrow> shown s = [] \<Longrightarrow> \<not> d_aborted s \<Longrightarrow>
   shown (dialog_run parse es s) = [] \<and> \<not> d_aborted (dialog_run parse es s)"
proof (induction es arbitrary: s)
  case Nil
  then show ?case by simp
next
  case (Cons e es)
  from Cons.prems(1) have p: "finished (dialog_deliver parse e s) = None"
    using dialog_run_in_progress [of parse es "dialog_deliver parse e s"] by simp
  from dialog_deliver_quiet [OF p Cons.prems(2,3)] Cons.prems(1) show ?case
    using Cons.IH [of "dialog_deliver parse e s"] by simp
qed

lemma abort_in_progress:
  assumes "finished (dialog_run parse pre (opened False)) = None"
  shows "(''Cancelled'', ''info'') \<in> set (notified (dialog_run parse (pre @ Abort # post) (opened False)))"
    and "shown (dialog_run parse (pre @ Abort # post) (opened False)) = []"
proof -
  let ?s = "dialog_run parse pre (opened False)"
  have q: "shown ?s = [] \<and> \<not> d_aborted ?s"
    using dialog_run_quiet [OF assms] by (simp add: opened_def)
  let ?a = "dialog_deliver parse Abort ?s"
  have f: "finished ?a \<noteq> None" and n: "(''Cancelled'', ''info'') \<in> set (notified ?a)"
    and h: "shown ?a = []"
    using q assms by (simp_all add: done_with_def notify_def)
  show "(''Cancelled'', ''info'') \<in> set (notified (dialog_run parse (pre @ Abort # post) (opened False)))"
    using dialog_run_notified [OF n, of parse post] by (simp add: dialog_run_append)
  show "shown (dialog_run parse (pre @ Abort # post) (opened False)) = []"
    using dialog_run_finished [OF f, of parse post] h by (simp add: dialog_run_append)
qed

lemmas handler_eval =
  handler_def only_notify_def trim_def is_space_def Let_def

text \<open>
  Claim C9. The command requires an interactive surface (\<^verbatim>\<open>ctx.hasUI\<close>). With empty
  argument text (nothing but white space) it spawns no process and shows nothing, and on
  the interactive surface its only notification is the usage error. When the loader is
  aborted while the analysis of an image is in progress, the command notifies
  \<^verbatim>\<open>Cancelled\<close> and shows no result, whatever the child does afterwards.
\<close>

theorem analyze_image_usage_and_cancel:
  "(trim args = [] \<longrightarrow>
      c_spawns (handler resolve parse args ctx la events) = [] \<and>
      displayed (handler resolve parse args ctx la events) = [] \<and>
      (hasUI ctx \<longrightarrow>
         notifications (handler resolve parse args ctx la events)
           = [(''Usage: /analyze-image <path-to-image>'', ''error'')]))
   \<and> (hasUI ctx \<and> trim args \<noteq> [] \<and> classify (resolve (cwd ctx) (trim args)) \<noteq> NotImage \<and>
       finished (dialog_run parse pre (opened False)) = None \<longrightarrow>
      (''Cancelled'', ''info'')
         \<in> set (notifications (handler resolve parse args ctx False (pre @ Abort # post))) \<and>
      displayed (handler resolve parse args ctx False (pre @ Abort # post)) = [])"
proof (intro conjI impI)
  assume "trim args = []"
  then show "c_spawns (handler resolve parse args ctx la events) = []"
    and "displayed (handler resolve parse args ctx la events) = []"
    by (simp_all add: handler_def only_notify_def)
next
  assume "trim args = []" and "hasUI ctx"
  then show "notifications (handler resolve parse args ctx la events)
           = [(''Usage: /analyze-image <path-to-image>'', ''error'')]"
    by (simp add: handler_def only_notify_def)
next
  assume a: "hasUI ctx \<and> trim args \<noteq> [] \<and> classify (resolve (cwd ctx) (trim args)) \<noteq> NotImage \<and>
       finished (dialog_run parse pre (opened False)) = None"
  then obtain mt where "detectImageMimeType (resolve (cwd ctx) (trim args)) = Some mt"
    by (auto simp: classify_def split: option.splits)
  then have n: "notifications (handler resolve parse args ctx False (pre @ Abort # post))
              = notified (dialog_run parse (pre @ Abort # post) (opened False))"
    and d: "displayed (handler resolve parse args ctx False (pre @ Abort # post))
              = shown (dialog_run parse (pre @ Abort # post) (opened False))"
    using a by (simp_all add: handler_def Let_def)
  from a have p: "finished (dialog_run parse pre (opened False)) = None" by simp
  show "(''Cancelled'', ''info'')
         \<in> set (notifications (handler resolve parse args ctx False (pre @ Abort # post)))"
    using abort_in_progress(1) [OF p, of post] n by simp
  show "displayed (handler resolve parse args ctx False (pre @ Abort # post)) = []"
    using abort_in_progress(2) [OF p, of post] d by simp
qed

theorem analyze_image_usage_and_cancel_witness:
  "trim ''  '' = [] \<and>
   hasUI \<lparr>cwd = ''/w'', model = None, hasUI = True\<rparr> \<and>
   handler (\<lambda>c p. c @ ''/'' @ p) (\<lambda>s. None) ''  '' \<lparr>cwd = ''/w'', model = None, hasUI = True\<rparr>
       False [StdoutData ''a chart'', Close (Some 0)]
     = \<lparr>notifications = [(''Usage: /analyze-image <path-to-image>'', ''error'')],
        c_spawns = [], c_kills = 0, displayed = []\<rparr> \<and>
   trim '' shot.png'' \<noteq> [] \<and> classify ''/w/shot.png'' \<noteq> NotImage \<and>
   finished (dialog_run (\<lambda>s. None) [StdoutData ''a chart''] (opened False)) = None \<and>
   (''Cancelled'', ''info'')
      \<in> set (notifications (handler (\<lambda>c p. c @ ''/'' @ p) (\<lambda>s. None) '' shot.png''
                \<lparr>cwd = ''/w'', model = None, hasUI = True\<rparr> False
                ([StdoutData ''a chart''] @ Abort # [Close None]))) \<and>
   displayed (handler (\<lambda>c p. c @ ''/'' @ p) (\<lambda>s. None) '' shot.png''
                \<lparr>cwd = ''/w'', model = None, hasUI = True\<rparr> False
                ([StdoutData ''a chart''] @ Abort # [Close None])) = []"
proof -
  have e: "trim ''  '' = []"
    by (simp add: trim_def is_space_def)
  have u: "handler (\<lambda>c p. c @ ''/'' @ p) (\<lambda>s. None) ''  ''
             \<lparr>cwd = ''/w'', model = None, hasUI = True\<rparr> False
             [StdoutData ''a chart'', Close (Some 0)]
           = \<lparr>notifications = [(''Usage: /analyze-image <path-to-image>'', ''error'')],
              c_spawns = [], c_kills = 0, displayed = []\<rparr>"
    by (simp add: handler_eval)
  have t: "trim '' shot.png'' = ''shot.png''"
    by (simp add: trim_def is_space_def)
  have c: "classify ''/w/shot.png'' \<noteq> NotImage"
    by (simp add: classify_eval)
  have f: "finished (dialog_run (\<lambda>s. None) [StdoutData ''a chart''] (opened False)) = None"
    by (simp add: opened_def)
  have "(''Cancelled'', ''info'')
      \<in> set (notifications (handler (\<lambda>c p. c @ ''/'' @ p) (\<lambda>s. None) '' shot.png''
                \<lparr>cwd = ''/w'', model = None, hasUI = True\<rparr> False
                ([StdoutData ''a chart''] @ Abort # [Close None]))) \<and>
   displayed (handler (\<lambda>c p. c @ ''/'' @ p) (\<lambda>s. None) '' shot.png''
                \<lparr>cwd = ''/w'', model = None, hasUI = True\<rparr> False
                ([StdoutData ''a chart''] @ Abort # [Close None])) = []"
    using t c f
      analyze_image_usage_and_cancel
        [where args = "'' shot.png''" and ctx = "\<lparr>cwd = ''/w'', model = None, hasUI = True\<rparr>"
           and resolve = "\<lambda>c p. c @ ''/'' @ p" and parse = "\<lambda>s. None"
           and pre = "[StdoutData ''a chart'']" and post = "[Close None]", THEN conjunct2]
    by simp
  then show ?thesis
    using e u t c f by simp
qed

text \<open>
  Claim C10, as amended. When the trimmed argument is not empty and the resolved path
  does not classify as a supported image, the command spawns no process, kills nothing
  and shows nothing, and on an interactive surface (\<^verbatim>\<open>ctx.hasUI\<close>) its only notification is
  the error \<^verbatim>\<open>Not a supported image file\<close>. The gate is the one of the read tool: for the
  same path \<^verbatim>\<open>execute\<close> spawns nothing either.
\<close>

theorem analyze_image_rejects_non_image:
  assumes "trim args \<noteq> []"
    and "classify (resolve (cwd ctx) (trim args)) = NotImage"
  shows "c_spawns (handler resolve parse args ctx la events) = [] \<and>
         c_kills (handler resolve parse args ctx la events) = 0 \<and>
         displayed (handler resolve parse args ctx la events) = [] \<and>
         (hasUI ctx \<longrightarrow>
            notifications (handler resolve parse args ctx la events)
              = [(''Not a supported image file'', ''error'')]) \<and>
         spawns (execute resolve localRead parse \<lparr>path = trim args\<rparr> sig ctx events) = []"
proof -
  from assms(2) have d: "detectImageMimeType (resolve (cwd ctx) (trim args)) = None"
    by (auto simp: classify_def split: option.splits)
  show ?thesis
    using assms(1) d
    by (simp add: handler_def only_notify_def execute_def standard_read_def Let_def)
qed

theorem analyze_image_rejects_non_image_witness:
  "trim ''notes.txt '' \<noteq> [] \<and>
   classify ''/w/notes.txt'' = NotImage \<and>
   hasUI \<lparr>cwd = ''/w'', model = Some ''glm-4.7'', hasUI = True\<rparr> \<and>
   notifications (handler (\<lambda>c p. c @ ''/'' @ p) (\<lambda>s. None) ''notes.txt ''
        \<lparr>cwd = ''/w'', model = Some ''glm-4.7'', hasUI = True\<rparr> False [Close (Some 0)])
     = [(''Not a supported image file'', ''error'')] \<and>
   c_spawns (handler (\<lambda>c p. c @ ''/'' @ p) (\<lambda>s. None) ''notes.txt ''
        \<lparr>cwd = ''/w'', model = Some ''glm-4.7'', hasUI = True\<rparr> False [Close (Some 0)]) = [] \<and>
   displayed (handler (\<lambda>c p. c @ ''/'' @ p) (\<lambda>s. None) ''notes.txt ''
        \<lparr>cwd = ''/w'', model = Some ''glm-4.7'', hasUI = True\<rparr> False [Close (Some 0)]) = []"
proof -
  have t: "trim ''notes.txt '' = ''notes.txt''"
    by (simp add: trim_def is_space_def)
  have c: "classify ''/w/notes.txt'' = NotImage"
    by (simp add: classify_eval)
  show ?thesis
    using t c
      analyze_image_rejects_non_image
        [where args = "''notes.txt ''"
           and ctx = "\<lparr>cwd = ''/w'', model = Some ''glm-4.7'', hasUI = True\<rparr>"
           and resolve = "\<lambda>c p. c @ ''/'' @ p" and parse = "\<lambda>s. None" and la = False
           and events = "[Close (Some 0)]" and localRead = path and sig = None]
    by simp
qed

text \<open>
  The claim as it is written fails without an interactive surface: the only notification
  is then that the command requires interactive mode.
\<close>

theorem non_image_without_ui_counterexample:
  "trim ''notes.txt'' \<noteq> [] \<and>
   classify ''/w/notes.txt'' = NotImage \<and>
   notifications (handler (\<lambda>c p. c @ ''/'' @ p) (\<lambda>s. None) ''notes.txt''
        \<lparr>cwd = ''/w'', model = None, hasUI = False\<rparr> False [])
     = [(''analyze-image requires interactive mode'', ''error'')] \<and>
   (''Not a supported image file'', ''error'')
     \<notin> set (notifications (handler (\<lambda>c p. c @ ''/'' @ p) (\<lambda>s. None) ''notes.txt''
                \<lparr>cwd = ''/w'', model = None, hasUI = False\<rparr> False []))"
  by (simp add: handler_eval classify_eval)

end
